theory Spec2Isabelle
  imports Complex_Main "HOL-Library.AList"
begin

section \<open>JavaScript values\<close>

text \<open>
  The values the three decoders (\<^verbatim>\<open>JSON.parse\<close>, \<^verbatim>\<open>YAML.parse\<close>, \<^verbatim>\<open>INI.parse\<close>) produce:
  null, booleans, numbers, strings, arrays and plain objects. \<^verbatim>\<open>undefined\<close> is never a
  stored value; a missing property or argument is \<open>None\<close> of an option type.

  A number is kept only as far as the code looks at it (\<^verbatim>\<open>!== 0\<close> and truthiness):
  \<open>Finite 0\<close> stands for both zeros.

  A string is a list of code units; a \<open>char\<close> is one code unit in the range
  U+0000 .. U+00FF.

  An object is the list of its own enumerable properties in creation order.
\<close>

datatype jsnum = Finite rat | NaN | PosInfinity | NegInfinity

datatype jsval =
    JNull
  | JBool bool
  | JNum jsnum
  | JStr string
  | JArr "jsval list"
  | JObj "(string \<times> jsval) list"

type_synonym props = "(string \<times> jsval) list"

text \<open>\<^verbatim>\<open>!!v\<close>\<close>

fun truthy :: "jsval \<Rightarrow> bool" where
  "truthy JNull = False"
| "truthy (JBool b) = b"
| "truthy (JNum n) = (n \<noteq> Finite 0 \<and> n \<noteq> NaN)"
| "truthy (JStr s) = (s \<noteq> [])"
| "truthy (JArr xs) = True"
| "truthy (JObj ps) = True"

text \<open>The same for a value that may be \<^verbatim>\<open>undefined\<close>.\<close>

fun truthy_opt :: "jsval option \<Rightarrow> bool" where
  "truthy_opt None = False"
| "truthy_opt (Some v) = truthy v"

text \<open>\<^verbatim>\<open>typeof v\<close>\<close>

fun typeof :: "jsval \<Rightarrow> string" where
  "typeof JNull = ''object''"
| "typeof (JBool b) = ''boolean''"
| "typeof (JNum n) = ''number''"
| "typeof (JStr s) = ''string''"
| "typeof (JArr xs) = ''object''"
| "typeof (JObj ps) = ''object''"

subsection \<open>Property keys and their enumeration order\<close>

text \<open>\<^verbatim>\<open>String(n)\<close> for a non-negative integer.\<close>

fun nat_to_string :: "nat \<Rightarrow> string" where
  "nat_to_string n =
     (if n < 10 then [char_of (48 + n)]
      else nat_to_string (n div 10) @ [char_of (48 + n mod 10)])"

declare nat_to_string.simps [simp del]

definition is_digit :: "char \<Rightarrow> bool" where
  "is_digit c = (c \<in> set ''0123456789'')"

definition digit_value :: "char \<Rightarrow> nat" where
  "digit_value c = of_char c - 48"

text \<open>
  A property key is an array index when it is the canonical decimal form of an integer
  below \<open>2^32 - 1\<close>.
\<close>

definition array_index :: "string \<Rightarrow> nat option" where
  "array_index s =
     (if s \<noteq> [] \<and> list_all is_digit s \<and> (s = ''0'' \<or> hd s \<noteq> CHR ''0'')
      then (let n = foldl (\<lambda>a c. 10 * a + digit_value c) 0 s
            in if n < 4294967295 then Some n else None)
      else None)"

definition index_of :: "string \<Rightarrow> nat" where
  "index_of k = (case array_index k of Some i \<Rightarrow> i | None \<Rightarrow> 0)"

text \<open>
  The order in which \<^verbatim>\<open>Object.keys\<close>, \<^verbatim>\<open>Object.entries\<close> and the spread \<^verbatim>\<open>{...o}\<close> visit
  the own properties of an object: array indices ascending, then the other keys in
  creation order.
\<close>

definition own_entries :: "props \<Rightarrow> props" where
  "own_entries ps =
     sort_key (\<lambda>p. index_of (fst p)) (filter (\<lambda>p. array_index (fst p) \<noteq> None) ps)
     @ filter (\<lambda>p. array_index (fst p) = None) ps"

text \<open>
  The own enumerable properties of any value, in that order: what \<^verbatim>\<open>{...v}\<close> copies, and
  what \<^verbatim>\<open>Object.entries(v)\<close> returns for an object or array \<open>v\<close> (the code calls it only
  on values that passed its object check).
\<close>

fun entries :: "jsval \<Rightarrow> props" where
  "entries (JObj ps) = own_entries ps"
| "entries (JArr xs) = zip (map nat_to_string [0..<length xs]) xs"
| "entries (JStr s) = zip (map nat_to_string [0..<length s]) (map (\<lambda>c. JStr [c]) s)"
| "entries JNull = []"
| "entries (JBool b) = []"
| "entries (JNum n) = []"

text \<open>
  \<^verbatim>\<open>o[k]\<close> for an object or array produced by a decoder, for the keys the code reads by
  name (\<^verbatim>\<open>clients\<close>, \<^verbatim>\<open>active\<close>): an own property or \<^verbatim>\<open>undefined\<close>.
\<close>

fun own_prop :: "jsval \<Rightarrow> string \<Rightarrow> jsval option" where
  "own_prop (JObj ps) k = map_of ps k"
| "own_prop (JArr xs) k =
     (case array_index k of
        Some i \<Rightarrow> if i < length xs then Some (xs ! i) else None
      | None \<Rightarrow> if k = ''length'' then Some (JNum (Finite (of_nat (length xs)))) else None)"
| "own_prop JNull k = None"
| "own_prop (JBool b) k = None"
| "own_prop (JNum n) k = None"
| "own_prop (JStr s) k = None"

subsection \<open>Strings\<close>

text \<open>\<^verbatim>\<open>String.prototype.toLowerCase\<close> on code units up to U+00FF.\<close>

definition lower_char :: "char \<Rightarrow> char" where
  "lower_char c =
     (let n = (of_char c :: nat)
      in if (65 \<le> n \<and> n \<le> 90) \<or> (192 \<le> n \<and> n \<le> 222 \<and> n \<noteq> 215)
         then char_of (n + 32) else c)"

definition toLowerCase :: "string \<Rightarrow> string" where
  "toLowerCase s = map lower_char s"

text \<open>
  \<^verbatim>\<open>String.prototype.toUpperCase\<close>, on the ASCII letters: the code applies it only to the
  format names \<^verbatim>\<open>json\<close>, \<^verbatim>\<open>yaml\<close> and \<^verbatim>\<open>ini\<close>.
\<close>

definition upper_char :: "char \<Rightarrow> char" where
  "upper_char c =
     (let n = (of_char c :: nat)
      in if 97 \<le> n \<and> n \<le> 122 then char_of (n - 32) else c)"

definition toUpperCase :: "string \<Rightarrow> string" where
  "toUpperCase s = map upper_char s"

text \<open>
  White space and line terminators up to U+00FF: TAB, LF, VT, FF, CR, SP, NBSP.
\<close>

definition is_space :: "char \<Rightarrow> bool" where
  "is_space c = ((of_char c :: nat) \<in> {9, 10, 11, 12, 13, 32, 160})"

definition trim :: "string \<Rightarrow> string" where
  "trim s = rev (dropWhile is_space (rev (dropWhile is_space s)))"

text \<open>\<^verbatim>\<open>Array.prototype.join\<close>\<close>

fun join :: "string \<Rightarrow> string list \<Rightarrow> string" where
  "join sep [] = []"
| "join sep [x] = x"
| "join sep (x # y # ys) = x @ sep @ join sep (y # ys)"

section \<open>The environment: libraries, process and file system\<close>

text \<open>
  The codecs and the path functions are libraries outside the repository; they are
  parameters of the model. A parser returns \<open>Inl msg\<close> when it throws an error with
  message \<open>msg\<close>.
\<close>

record libs =
  json_parse :: "string \<Rightarrow> string + jsval"
  json_stringify :: "jsval \<Rightarrow> string"
  yaml_parse :: "string \<Rightarrow> string + jsval"
  yaml_stringify :: "jsval \<Rightarrow> string"
  ini_parse :: "string \<Rightarrow> string + jsval"
  ini_stringify :: "jsval \<Rightarrow> string"
  path_resolve :: "string \<Rightarrow> string \<Rightarrow> string"
  path_extname :: "string \<Rightarrow> string"

text \<open>
  A path holds a regular file (contents, readable, writable) or a directory.
\<close>

datatype fsnode = File string bool bool | Directory

text \<open>
  The process state the code reads and writes: the two environment variables (after
  \<^verbatim>\<open>dotenv\<close> has filled them in at start-up), the working directory and the file system.
\<close>

record world =
  DB_CLIENT :: "string option"
  DBCONFIG_FILE :: "string option"
  cwd :: string
  fs :: "string \<Rightarrow> fsnode option"

text \<open>A thrown \<^verbatim>\<open>Error\<close> with its message.\<close>

datatype error = Error string

section \<open>file-utils.js\<close>

fun first_existing :: "libs \<Rightarrow> world \<Rightarrow> string list \<Rightarrow> string option" where
  "first_existing L w [] = None"
| "first_existing L w (c # cs) =
     (let p = path_resolve L (cwd w) c
      in if fs w p \<noteq> None then Some p else first_existing L w cs)"

definition findConfigFile :: "libs \<Rightarrow> world \<Rightarrow> error + string option" where
  "findConfigFile L w =
     (case DBCONFIG_FILE w of
        Some (c # cs) \<Rightarrow>
          (let resolved = path_resolve L (cwd w) (c # cs)
           in if fs w resolved \<noteq> None then Inr (Some resolved)
              else Inl (Error (''DBCONFIG_FILE specified but not found: '' @ resolved)))
      | _ \<Rightarrow>
          Inr (first_existing L w
                 [''.dbconfig.json'', ''.dbconfig.yaml'', ''.dbconfig.yml'', ''.dbconfig.ini'']))"

text \<open>
  \<^verbatim>\<open>readFileSync\<close> fails with ENOENT on a missing path, EISDIR on a directory and EACCES
  on an unreadable file.
\<close>

definition readFileSafe :: "world \<Rightarrow> string \<Rightarrow> error + string" where
  "readFileSafe w filePath =
     (case fs w filePath of
        None \<Rightarrow> Inl (Error (''Config file not found: '' @ filePath))
      | Some Directory \<Rightarrow>
          Inl (Error (''Expected a file but found a directory: '' @ filePath))
      | Some (File content r wr) \<Rightarrow>
          if r then Inr content
          else Inl (Error (''Permission denied reading file: '' @ filePath)))"

text \<open>
  \<^verbatim>\<open>writeFileSync\<close> replaces the contents of a writable file and creates a missing one
  (its directory is taken to exist); it fails with EACCES on a file that is not writable
  and EISDIR on a directory, and then changes nothing.
\<close>

definition writeFileSafe :: "world \<Rightarrow> string \<Rightarrow> string \<Rightarrow> error + world" where
  "writeFileSafe w filePath content =
     (case fs w filePath of
        None \<Rightarrow> Inr (w\<lparr>fs := (fs w)(filePath \<mapsto> File content True True)\<rparr>)
      | Some Directory \<Rightarrow> Inl (Error (''Cannot write to a directory: '' @ filePath))
      | Some (File old r wr) \<Rightarrow>
          if wr then Inr (w\<lparr>fs := (fs w)(filePath \<mapsto> File content r wr)\<rparr>)
          else Inl (Error (''Permission denied writing file: '' @ filePath)))"

section \<open>config-loader.js\<close>

text \<open>
  The first test, \<^verbatim>\<open>!connectionString || typeof connectionString !== 'string'\<close>, holds of
  \<^verbatim>\<open>undefined\<close> and of every value but a non-empty string.
\<close>

definition validateConnectionString :: "jsval option \<Rightarrow> string \<Rightarrow> error + unit" where
  \<open>validateConnectionString connectionString key =
     (case connectionString of
        Some (JStr s) \<Rightarrow>
          if s = [] then
            Inl (Error (''Client "'' @ key @ ''": connectionString must be a non-empty string''))
          else if length (trim s) = 0 then
            Inl (Error (''Client "'' @ key @ ''": connectionString cannot be empty or whitespace''))
          else Inr ()
      | _ \<Rightarrow>
          Inl (Error (''Client "'' @ key @ ''": connectionString must be a non-empty string'')))\<close>

text \<open>
  The normalized model \<^verbatim>\<open>{ clients: {...} }\<close>. The object \<^verbatim>\<open>model.clients\<close> is built by
  assignments \<^verbatim>\<open>normalized.clients[key] = v\<close>; for the key \<^verbatim>\<open>__proto__\<close> such an assignment
  does not create a property but makes \<open>v\<close> the prototype of \<^verbatim>\<open>model.clients\<close>, so the
  model records that prototype too (\<open>None\<close>: the default \<^verbatim>\<open>Object.prototype\<close>).
\<close>

record model =
  clients :: props
  clients_proto :: "props option"

definition assign_client :: "model \<Rightarrow> string \<Rightarrow> props \<Rightarrow> model" where
  "assign_client m key v =
     (if key = ''__proto__'' then m\<lparr>clients_proto := Some v\<rparr>
      else m\<lparr>clients := AList.update key (JObj v) (clients m)\<rparr>)"

text \<open>Lines 67-76: the coercion of a present \<^verbatim>\<open>active\<close>.\<close>

definition coerce_active :: "jsval \<Rightarrow> bool" where
  "coerce_active a =
     (case a of
        JStr s \<Rightarrow>
          (let low = toLowerCase s in low = ''true'' \<or> low = ''1'' \<or> low = ''yes'')
      | JNum n \<Rightarrow> n \<noteq> Finite 0
      | _ \<Rightarrow> truthy a)"

definition normalize_active :: "props \<Rightarrow> props" where
  "normalize_active v =
     (case map_of v ''active'' of
        None \<Rightarrow> v
      | Some a \<Rightarrow> AList.update ''active'' (JBool (coerce_active a)) v)"

text \<open>Lines 56-79: the loop over \<^verbatim>\<open>Object.entries(data.clients)\<close>.\<close>

fun normalize_entries :: "props \<Rightarrow> model \<Rightarrow> error + model" where
  \<open>normalize_entries [] normalized = Inr normalized\<close>
| \<open>normalize_entries ((key, val) # rest) normalized =
     (if \<not> truthy val \<or> typeof val \<noteq> ''object'' then
        Inl (Error (''Client "'' @ key @
                    ''" must be an object with at least a connectionString field''))
      else
        (let v = entries val in
         case validateConnectionString (map_of v ''connectionString'') key of
           Inl e \<Rightarrow> Inl e
         | Inr u \<Rightarrow> normalize_entries rest (assign_client normalized key (normalize_active v))))\<close>

text \<open>Lines 49-81, on the value of \<^verbatim>\<open>data.clients\<close>.\<close>

definition normalize_clients :: "jsval option \<Rightarrow> error + model" where
  "normalize_clients c =
     (case c of
        None \<Rightarrow> Inl (Error ''Config must contain at least one client definition'')
      | Some cv \<Rightarrow>
          if \<not> truthy cv \<or> typeof cv \<noteq> ''object'' \<or> length (entries cv) = 0 then
            Inl (Error ''Config must contain at least one client definition'')
          else normalize_entries (entries cv) \<lparr>clients = [], clients_proto = None\<rparr>)"

definition parseRawToModel :: "jsval \<Rightarrow> string \<Rightarrow> error + model" where
  "parseRawToModel raw kind =
     (if \<not> truthy raw \<or> typeof raw \<noteq> ''object'' then
        Inl (Error ''Config file must contain a valid object'')
      else if kind = ''json'' \<or> kind = ''yaml'' then
        (if \<not> truthy_opt (own_prop raw ''clients'') then normalize_clients (Some raw)
         else normalize_clients (own_prop raw ''clients''))
      else if kind = ''ini'' then normalize_clients (Some raw)
      else Inl (Error ''Unsupported config format''))"

text \<open>The serializers see the own enumerable properties of the model.\<close>

definition model_value :: "model \<Rightarrow> jsval" where
  "model_value m = JObj [(''clients'', JObj (clients m))]"

definition serializeModel :: "libs \<Rightarrow> model \<Rightarrow> string \<Rightarrow> error + string" where
  "serializeModel L m kind =
     (if kind = ''json'' then Inr (json_stringify L (model_value m))
      else if kind = ''yaml'' then Inr (yaml_stringify L (model_value m))
      else if kind = ''ini'' then Inr (ini_stringify L (JObj (clients m)))
      else Inl (Error (''Unsupported config format: '' @ kind)))"

definition detectKindByExt :: "libs \<Rightarrow> string \<Rightarrow> string option" where
  "detectKindByExt L filePath =
     (let ext = toLowerCase (path_extname L filePath)
      in if ext = ''.json'' then Some ''json''
         else if ext = ''.yaml'' \<or> ext = ''.yml'' then Some ''yaml''
         else if ext = ''.ini'' then Some ''ini''
         else None)"

text \<open>Lines 130-141: the decoder of the detected format, its error rethrown.\<close>

definition decode :: "libs \<Rightarrow> string \<Rightarrow> string \<Rightarrow> error + jsval" where
  "decode L kind rawStr =
     (case (if kind = ''json'' then json_parse L rawStr
            else if kind = ''yaml'' then yaml_parse L rawStr
            else ini_parse L rawStr) of
        Inl msg \<Rightarrow>
          Inl (Error (''Failed to parse '' @ toUpperCase kind @ '' config file: '' @ msg))
      | Inr parsed \<Rightarrow> Inr parsed)"

definition loadConfig :: "libs \<Rightarrow> world \<Rightarrow> string \<Rightarrow> error + (string \<times> model)" where
  "loadConfig L w filePath =
     (case readFileSafe w filePath of
        Inl e \<Rightarrow> Inl e
      | Inr rawStr \<Rightarrow>
          (case detectKindByExt L filePath of
             None \<Rightarrow>
               Inl (Error ''Cannot infer config format from file extension. Use .json, .yaml, .yml, or .ini'')
           | Some kind \<Rightarrow>
               (case decode L kind rawStr of
                  Inl e \<Rightarrow> Inl e
                | Inr parsed \<Rightarrow>
                    (case parseRawToModel parsed kind of
                       Inl e \<Rightarrow> Inl e
                     | Inr m \<Rightarrow> Inr (kind, m)))))"

definition saveConfig :: "libs \<Rightarrow> world \<Rightarrow> string \<Rightarrow> string \<Rightarrow> model \<Rightarrow> error + world" where
  "saveConfig L w filePath kind m =
     (case serializeModel L m kind of
        Inl e \<Rightarrow> Inl e
      | Inr content \<Rightarrow> writeFileSafe w filePath content)"

section \<open>index.js\<close>

text \<open>
  \<^verbatim>\<open>model.clients[k]\<close> for any string \<open>k\<close>. The lookup walks the prototype chain: an own
  property; else a property of the prototype a \<^verbatim>\<open>__proto__\<close> assignment installed (whose own
  prototype is \<^verbatim>\<open>Object.prototype\<close>); else a member of \<^verbatim>\<open>Object.prototype\<close>. Those members
  are functions, but for the accessor \<^verbatim>\<open>__proto__\<close>, which returns the prototype of
  \<^verbatim>\<open>model.clients\<close>. A function and \<^verbatim>\<open>Object.prototype\<close> itself are truthy and have no
  enumerable own property: \<open>Builtin\<close>.
\<close>

datatype lookup = Found jsval | Builtin | Missing

definition object_prototype_names :: "string list" where
  "object_prototype_names =
     [''constructor'', ''__defineGetter__'', ''__defineSetter__'', ''hasOwnProperty'',
      ''__lookupGetter__'', ''__lookupSetter__'', ''isPrototypeOf'', ''propertyIsEnumerable'',
      ''toString'', ''valueOf'', ''__proto__'', ''toLocaleString'']"

definition clients_get :: "model \<Rightarrow> string \<Rightarrow> lookup" where
  "clients_get m k =
     (case map_of (clients m) k of
        Some v \<Rightarrow> Found v
      | None \<Rightarrow>
          (case clients_proto m of
             None \<Rightarrow> if k \<in> set object_prototype_names then Builtin else Missing
           | Some ps \<Rightarrow>
               (case map_of ps k of
                  Some v \<Rightarrow> Found v
                | None \<Rightarrow>
                    if k = ''__proto__'' then Found (JObj ps)
                    else if k \<in> set object_prototype_names then Builtin
                    else Missing)))"

fun truthy_lookup :: "lookup \<Rightarrow> bool" where
  "truthy_lookup (Found v) = truthy v"
| "truthy_lookup Builtin = True"
| "truthy_lookup Missing = False"

text \<open>What \<^verbatim>\<open>{...item}\<close> copies.\<close>

fun spread :: "lookup \<Rightarrow> props" where
  "spread (Found v) = entries v"
| "spread Builtin = []"
| "spread Missing = []"

text \<open>\<^verbatim>\<open>{ key, ...val }\<close>: the property \<^verbatim>\<open>key\<close> first, then the copied ones.\<close>

definition with_key :: "string \<Rightarrow> props \<Rightarrow> props" where
  "with_key key ps = fold (\<lambda>p obj. AList.update (fst p) (snd p) obj) ps [(''key'', JStr key)]"

text \<open>\<^verbatim>\<open>Object.keys(model.clients)\<close>\<close>

definition client_keys :: "model \<Rightarrow> string list" where
  "client_keys m = map fst (own_entries (clients m))"

text \<open>
  Lines 110-132 of \<^verbatim>\<open>getActiveConnection\<close>, on the loaded model. An environment variable
  is a string or not set; \<^verbatim>\<open>if (envKey)\<close> holds of a non-empty string.
\<close>

definition resolveActive :: "string option \<Rightarrow> model \<Rightarrow> error + jsval option" where
  \<open>resolveActive envKey m =
     (case envKey of
        Some (c # cs) \<Rightarrow>
          (let item = clients_get m (c # cs) in
           if \<not> truthy_lookup item then
             Inl (Error (''DB_CLIENT="'' @ (c # cs) @
                         ''" does not match any client in config. Available clients: '' @
                         join '', '' (client_keys m)))
           else Inr (Some (JObj (with_key (c # cs) (spread item)))))
      | _ \<Rightarrow>
          (let actives = filter (\<lambda>p. truthy_opt (own_prop (snd p) ''active''))
                           (own_entries (clients m)) in
           case actives of
             [] \<Rightarrow> Inr None
           | (key, val) # others \<Rightarrow> Inr (Some (JObj (with_key key (entries val))))))\<close>

definition getActiveConnection :: "libs \<Rightarrow> world \<Rightarrow> error + jsval option" where
  "getActiveConnection L w =
     (case findConfigFile L w of
        Inl e \<Rightarrow> Inl e
      | Inr None \<Rightarrow>
          Inl (Error ''Config file not found. Create .dbconfig.json/.yaml/.ini in your project root or set DBCONFIG_FILE environment variable.'')
      | Inr (Some f) \<Rightarrow>
          (case loadConfig L w f of
             Inl e \<Rightarrow> Inl e
           | Inr (kind, m) \<Rightarrow> resolveActive (DB_CLIENT w) m))"

definition listConnections :: "libs \<Rightarrow> world \<Rightarrow> error + jsval list" where
  "listConnections L w =
     (case findConfigFile L w of
        Inl e \<Rightarrow> Inl e
      | Inr None \<Rightarrow> Inl (Error ''Config file not found.'')
      | Inr (Some f) \<Rightarrow>
          (case loadConfig L w f of
             Inl e \<Rightarrow> Inl e
           | Inr (kind, m) \<Rightarrow>
               Inr (map (\<lambda>p. JObj (with_key (fst p) (entries (snd p))))
                      (own_entries (clients m)))))"

text \<open>
  The argument \<open>key\<close> is any value, \<open>None\<close> when it is \<^verbatim>\<open>undefined\<close>. The guard
  \<^verbatim>\<open>!key || typeof key !== 'string'\<close> lets a non-empty string through and nothing else.
\<close>

definition getConnectionByKey :: "libs \<Rightarrow> world \<Rightarrow> jsval option \<Rightarrow> error + jsval option" where
  "getConnectionByKey L w key =
     (case key of
        Some (JStr (c # cs)) \<Rightarrow>
          (case findConfigFile L w of
             Inl e \<Rightarrow> Inl e
           | Inr None \<Rightarrow> Inl (Error ''Config file not found.'')
           | Inr (Some f) \<Rightarrow>
               (case loadConfig L w f of
                  Inl e \<Rightarrow> Inl e
                | Inr (kind, m) \<Rightarrow>
                    (let item = clients_get m (c # cs) in
                     if \<not> truthy_lookup item then Inr None
                     else Inr (Some (JObj (with_key (c # cs) (spread item)))))))
      | _ \<Rightarrow> Inl (Error ''Key must be a non-empty string''))"

text \<open>
  Lines 208-213: the loop over \<^verbatim>\<open>Object.keys(model.clients)\<close>, each step the assignment
  \<^verbatim>\<open>model.clients[k] = { ...model.clients[k], active: k === key }\<close>.
\<close>

definition set_active_step :: "string \<Rightarrow> string \<Rightarrow> model \<Rightarrow> model" where
  "set_active_step key k m =
     m\<lparr>clients :=
         AList.update k
           (JObj (AList.update ''active'' (JBool (k = key)) (spread (clients_get m k))))
           (clients m)\<rparr>"

definition set_active_loop :: "string \<Rightarrow> model \<Rightarrow> model" where
  "set_active_loop key m = fold (set_active_step key) (client_keys m) m"

text \<open>
  The result pairs what the call returns or throws with the process state it leaves.
\<close>

definition setActiveConnection :: "libs \<Rightarrow> world \<Rightarrow> jsval option \<Rightarrow> (error + bool) \<times> world" where
  \<open>setActiveConnection L w key =
     (case key of
        Some (JStr (c # cs)) \<Rightarrow>
          (case findConfigFile L w of
             Inl e \<Rightarrow> (Inl e, w)
           | Inr None \<Rightarrow> (Inl (Error ''Config file not found.''), w)
           | Inr (Some f) \<Rightarrow>
               (case loadConfig L w f of
                  Inl e \<Rightarrow> (Inl e, w)
                | Inr (kind, m) \<Rightarrow>
                    if \<not> truthy_lookup (clients_get m (c # cs)) then
                      (Inl (Error (''Key "'' @ (c # cs) @
                                   ''" not found in config. Available clients: '' @
                                   join '', '' (client_keys m))), w)
                    else
                      (case saveConfig L w f kind (set_active_loop (c # cs) m) of
                         Inl e \<Rightarrow> (Inl e, w)
                       | Inr w' \<Rightarrow> (Inr True, w'))))
      | _ \<Rightarrow> (Inl (Error ''Key must be a non-empty string''), w))\<close>

section \<open>The vocabulary of the properties\<close>

text \<open>
  A normalized client record: an object with distinct field names whose
  \<^verbatim>\<open>connectionString\<close> passes \<open>validateConnectionString\<close> and whose \<^verbatim>\<open>active\<close> is absent
  or a boolean.
\<close>

definition normalized_record :: "string \<Rightarrow> jsval \<Rightarrow> bool" where
  "normalized_record k v =
     (case v of
        JObj ps \<Rightarrow>
          distinct (map fst ps) \<and>
          validateConnectionString (map_of ps ''connectionString'') k = Inr () \<and>
          (case map_of ps ''active'' of None \<Rightarrow> True | Some a \<Rightarrow> typeof a = ''boolean'')
      | _ \<Rightarrow> False)"

text \<open>
  A normalized model: at least one client, distinct keys, every record normalized. The key
  \<^verbatim>\<open>__proto__\<close> is never an own property of \<^verbatim>\<open>model.clients\<close> (see \<open>assign_client\<close>).
\<close>

definition normalized_model :: "model \<Rightarrow> bool" where
  "normalized_model m =
     (clients m \<noteq> [] \<and> distinct (map fst (clients m)) \<and>
      ''__proto__'' \<notin> set (map fst (clients m)) \<and>
      list_all (\<lambda>p. normalized_record (fst p) (snd p)) (clients m))"

text \<open>What normalization makes of a client that is already normalized.\<close>

definition renormalized :: "string \<times> jsval \<Rightarrow> string \<times> jsval" where
  "renormalized p = (fst p, JObj (entries (snd p)))"

text \<open>What one step of the loop of \<open>setActiveConnection\<close> makes of a client.\<close>

definition activated :: "string \<Rightarrow> string \<times> jsval \<Rightarrow> string \<times> jsval" where
  "activated key p =
     (fst p, JObj (AList.update ''active'' (JBool (fst p = key)) (entries (snd p))))"

text \<open>The value \<open>serializeModel\<close> hands to the encoder of a format.\<close>

definition serialized_value :: "model \<Rightarrow> string \<Rightarrow> jsval" where
  "serialized_value m kind = (if kind = ''ini'' then JObj (clients m) else model_value m)"

text \<open>
  The codec of a format gives back the value \<open>v\<close> from its own encoding of \<open>v\<close>. The codecs
  are library code; where a property reads a file back, this is what it asks of them.
\<close>

definition codec_roundtrip :: "libs \<Rightarrow> string \<Rightarrow> jsval \<Rightarrow> bool" where
  "codec_roundtrip L kind v =
     (if kind = ''json'' then json_parse L (json_stringify L v) = Inr v
      else if kind = ''yaml'' then yaml_parse L (yaml_stringify L v) = Inr v
      else ini_parse L (ini_stringify L v) = Inr v)"

text \<open>
  \<open>m'\<close> has the clients of \<open>m\<close>, in the same order of enumeration; in \<open>m'\<close> the record of
  \<open>key\<close> has \<^verbatim>\<open>active\<close> true, every other record has \<^verbatim>\<open>active\<close> false, and every other field
  of every record is as in \<open>m\<close>.
\<close>

definition only_active :: "string \<Rightarrow> model \<Rightarrow> model \<Rightarrow> bool" where
  "only_active key m m' =
     (client_keys m' = client_keys m \<and>
      (\<forall>k v. map_of (clients m) k = Some v \<longrightarrow>
         (\<exists>v'. map_of (clients m') k = Some v' \<and>
               own_prop v' ''active'' = Some (JBool (k = key)) \<and>
               (\<forall>f. f \<noteq> ''active'' \<longrightarrow> own_prop v' f = own_prop v f))))"

text \<open>The encoder \<open>serializeModel\<close> calls for a format.\<close>

definition encode :: "libs \<Rightarrow> string \<Rightarrow> jsval \<Rightarrow> string" where
  "encode L kind v =
     (if kind = ''json'' then json_stringify L v
      else if kind = ''yaml'' then yaml_stringify L v
      else ini_stringify L v)"

text \<open>
  The coercion of \<^verbatim>\<open>active\<close> in the words of the specification: the strings \<^verbatim>\<open>true\<close>, \<^verbatim>\<open>1\<close>,
  \<^verbatim>\<open>yes\<close> (in any case) and the non-zero numbers give true, every other value its
  truthiness.
\<close>

definition claimed_coercion :: "jsval \<Rightarrow> bool" where
  "claimed_coercion a =
     (if (case a of
            JStr s \<Rightarrow> toLowerCase s = ''true'' \<or> toLowerCase s = ''1'' \<or> toLowerCase s = ''yes''
          | JNum n \<Rightarrow> n \<noteq> Finite 0
          | _ \<Rightarrow> False)
      then True else truthy a)"

text \<open>
  A value as a decoder builds it: the keys of every object in it are distinct.
\<close>

fun wf_value :: "jsval \<Rightarrow> bool" where
  "wf_value (JObj ps) = (distinct (map fst ps) \<and> (\<forall>p \<in> set ps. wf_value (snd p)))"
| "wf_value (JArr xs) = (\<forall>x \<in> set xs. wf_value x)"
| "wf_value v = True"

text \<open>The number a string of digits writes.\<close>

definition string_to_nat :: "string \<Rightarrow> nat" where
  "string_to_nat s = foldl (\<lambda>a c. 10 * a + digit_value c) 0 s"

text \<open>What the loop of the normalizer maintains of the model it builds.\<close>

definition model_invariant :: "model \<Rightarrow> bool" where
  "model_invariant m =
     (distinct (map fst (clients m)) \<and> ''__proto__'' \<notin> set (map fst (clients m)) \<and>
      list_all (\<lambda>p. normalized_record (fst p) (snd p)) (clients m))"

subsection \<open>A concrete configuration\<close>

text \<open>
  A small file system, four JSON documents and a codec that knows exactly these
  documents, to run the functions on.
\<close>

definition demo_path :: string where
  "demo_path = ''/app/.dbconfig.json''"

definition doc_ab_text :: string where
  \<open>doc_ab_text = ''{"clients":{"a":{"connectionString":"pg://a","active":true},"b":{"connectionString":"pg://b"}}}''\<close>

definition model_ab :: model where
  "model_ab = \<lparr>clients =
      [(''a'', JObj [(''connectionString'', JStr ''pg://a''), (''active'', JBool True)]),
       (''b'', JObj [(''connectionString'', JStr ''pg://b'')])],
     clients_proto = None\<rparr>"

definition doc_ba_text :: string where
  \<open>doc_ba_text = ''{"clients":{"a":{"connectionString":"pg://a","active":false},"b":{"connectionString":"pg://b","active":true}}}''\<close>

definition model_ba :: model where
  "model_ba = \<lparr>clients =
      [(''a'', JObj [(''connectionString'', JStr ''pg://a''), (''active'', JBool False)]),
       (''b'', JObj [(''connectionString'', JStr ''pg://b''), (''active'', JBool True)])],
     clients_proto = None\<rparr>"

definition doc_eb_text :: string where
  \<open>doc_eb_text = ''{"clients":{"":{"connectionString":"pg://e"},"b":{"connectionString":"pg://b","active":true}}}''\<close>

definition model_eb :: model where
  "model_eb = \<lparr>clients =
      [('''', JObj [(''connectionString'', JStr ''pg://e'')]),
       (''b'', JObj [(''connectionString'', JStr ''pg://b''), (''active'', JBool True)])],
     clients_proto = None\<rparr>"

definition doc_key_text :: string where
  \<open>doc_key_text = ''{"clients":{"a":{"connectionString":"pg://a","active":true,"key":"shadow"}}}''\<close>

definition model_key :: model where
  "model_key = \<lparr>clients =
      [(''a'', JObj [(''connectionString'', JStr ''pg://a''), (''active'', JBool True),
                     (''key'', JStr ''shadow'')])],
     clients_proto = None\<rparr>"

definition demo_docs :: "(string \<times> jsval) list" where
  "demo_docs =
     [(doc_ab_text, model_value model_ab), (doc_ba_text, model_value model_ba),
      (doc_eb_text, model_value model_eb), (doc_key_text, model_value model_key)]"

definition demo_libs :: libs where
  "demo_libs =
     \<lparr>json_parse = (\<lambda>s. case map_of demo_docs s of
                            Some v \<Rightarrow> Inr v | None \<Rightarrow> Inl ''Unexpected token''),
      json_stringify = (\<lambda>v. case List.find (\<lambda>d. snd d = v) demo_docs of
                                Some d \<Rightarrow> fst d | None \<Rightarrow> ''null''),
      yaml_parse = (\<lambda>s. Inl ''unsupported''),
      yaml_stringify = (\<lambda>v. []),
      ini_parse = (\<lambda>s. Inl ''unsupported''),
      ini_stringify = (\<lambda>v. []),
      path_resolve = (\<lambda>dir p. dir @ ''/'' @ p),
      path_extname = (\<lambda>p. CHR ''.'' # rev (takeWhile (\<lambda>c. c \<noteq> CHR ''.'') (rev p)))\<rparr>"

definition demo_world :: "string option \<Rightarrow> string \<Rightarrow> world" where
  "demo_world env content =
     \<lparr>DB_CLIENT = env, DBCONFIG_FILE = None, cwd = ''/app'',
      fs = (\<lambda>p. if p = demo_path then Some (File content True True) else None)\<rparr>"

text \<open>
  A normalized model whose connection string is the string \<^verbatim>\<open>true\<close>, and an INI codec that
  does with it what the \<^verbatim>\<open>ini\<close> library does: \<^verbatim>\<open>stringify\<close> writes such a string bare, and
  \<^verbatim>\<open>parse\<close> reads a bare \<^verbatim>\<open>true\<close> as the boolean.
\<close>

definition model_true :: model where
  "model_true =
     \<lparr>clients = [(''a'', JObj [(''connectionString'', JStr ''true'')])], clients_proto = None\<rparr>"

definition ini_true_text :: string where
  "ini_true_text = ''[a]'' @ [CHR 0x0A] @ ''connectionString=true'' @ [CHR 0x0A]"

definition ini_libs :: libs where
  "ini_libs =
     demo_libs
       \<lparr>ini_parse :=
          (\<lambda>s. if s = ini_true_text
                then Inr (JObj [(''a'', JObj [(''connectionString'', JBool True)])])
                else Inl ''unsupported''),
        ini_stringify :=
          (\<lambda>v. if v = JObj [(''a'', JObj [(''connectionString'', JStr ''true'')])]
                then ini_true_text else [])\<rparr>"

section \<open>Enumeration order and object literals\<close>

lemma set_own_entries: "set (own_entries ps) = set ps"
  by (auto simp: own_entries_def)

lemma distinct_own_entries:
  "distinct (map fst (own_entries ps)) = distinct (map fst ps)"
proof -
  have d: "distinct (own_entries ps) = distinct ps"
    by (induction ps) (auto simp: own_entries_def distinct_insort set_insort_key)
  show ?thesis
    by (simp add: distinct_map d set_own_entries)
qed

lemma map_of_own_entries:
  "distinct (map fst ps) \<Longrightarrow> map_of (own_entries ps) = map_of ps"
  by (simp add: map_of_inject_set distinct_own_entries set_own_entries)

lemma own_entries_idem: "own_entries (own_entries ps) = own_entries ps"
proof -
  define k where "k = (\<lambda>p::string \<times> jsval. index_of (fst p))"
  define isx where "isx = (\<lambda>p::string \<times> jsval. array_index (fst p) \<noteq> None)"
  define A where "A = sort_key k (filter isx ps)"
  define B where "B = filter (\<lambda>p. \<not> isx p) ps"
  have oe: "own_entries qs = sort_key k (filter isx qs) @ filter (\<lambda>p. \<not> isx p) qs" for qs
    by (simp add: own_entries_def k_def isx_def)
  have a1: "filter isx A = A"
    by (simp add: A_def filter_sort)
  have a2: "filter (\<lambda>p. \<not> isx p) A = []"
    by (auto simp: A_def filter_empty_conv)
  have a3: "sort_key k A = A"
    unfolding A_def by (rule sort_key_id_if_sorted) simp
  have a4: "filter isx B = []"
    by (auto simp: B_def filter_empty_conv)
  have a5: "filter (\<lambda>p. \<not> isx p) B = B"
    by (simp add: B_def)
  have "own_entries (A @ B) = A @ B"
    by (simp add: oe a1 a2 a3 a4 a5)
  then show ?thesis
    by (simp add: oe[of ps] A_def B_def)
qed

lemma insort_key_map:
  "insort_key k (f x) (map f xs) = map f (insort_key (\<lambda>y. k (f y)) x xs)"
  by (induction xs) auto

lemma sort_key_map: "sort_key k (map f xs) = map f (sort_key (\<lambda>y. k (f y)) xs)"
  by (induction xs) (auto simp: insort_key_map)

lemma own_entries_map:
  assumes "\<And>p. fst (f p) = fst p"
  shows "own_entries (map f ps) = map f (own_entries ps)"
  by (simp add: own_entries_def filter_map sort_key_map assms comp_def)

lemma map_of_fold_update:
  "distinct (map fst ps) \<Longrightarrow>
   map_of (fold (\<lambda>p obj. AList.update (fst p) (snd p) obj) ps acc) = map_of acc ++ map_of ps"
proof (induction ps arbitrary: acc)
  case Nil
  then show ?case by simp
next
  case (Cons p ps)
  obtain k v where p: "p = (k, v)" by (cases p)
  from Cons.prems p have nk: "k \<notin> fst ` set ps" and d: "distinct (map fst ps)" by auto
  have "fold (\<lambda>p obj. AList.update (fst p) (snd p) obj) (p # ps) acc
        = fold (\<lambda>p obj. AList.update (fst p) (snd p) obj) ps (AList.update k v acc)"
    by (simp add: p)
  then have "map_of (fold (\<lambda>p obj. AList.update (fst p) (snd p) obj) (p # ps) acc)
        = (map_of acc)(k \<mapsto> v) ++ map_of ps"
    by (simp only: Cons.IH[OF d] update_conv')
  also have "\<dots> = map_of acc ++ map_of (p # ps)"
  proof -
    have mk: "map_of ps k = None"
      using nk by (simp add: map_of_eq_None_iff)
    show ?thesis
      using mk by (auto simp: p fun_eq_iff map_add_def split: option.splits)
  qed
  finally show ?case .
qed

lemma map_of_with_key:
  "distinct (map fst ps) \<Longrightarrow>
   map_of (with_key k ps) f =
     (case map_of ps f of Some x \<Rightarrow> Some x
      | None \<Rightarrow> if f = ''key'' then Some (JStr k) else None)"
  by (simp add: with_key_def map_of_fold_update map_add_def split: option.splits)

section \<open>Normalizing a normalized model\<close>

lemma typeof_boolean: "typeof a = ''boolean'' \<longleftrightarrow> (\<exists>b. a = JBool b)"
  by (cases a) auto

lemma update_absent: "k \<notin> fst ` set al \<Longrightarrow> AList.update k v al = al @ [(k, v)]"
  by (induction al) auto

lemma update_present_map:
  "distinct (map fst al) \<Longrightarrow> k \<in> fst ` set al \<Longrightarrow>
   AList.update k v al = map (\<lambda>p. if fst p = k then (k, v) else p) al"
proof (induction al)
  case Nil
  then show ?case by simp
next
  case (Cons a al)
  show ?case
  proof (cases "fst a = k")
    case True
    with Cons.prems have "k \<notin> fst ` set al" by auto
    then have "map (\<lambda>p. if fst p = k then (k, v) else p) al = al"
      by (induction al) auto
    with True show ?thesis by simp
  next
    case False
    with Cons show ?thesis by auto
  qed
qed

lemma normalize_active_id:
  assumes "map_of v ''active'' = None \<or> (\<exists>b. map_of v ''active'' = Some (JBool b))"
  shows "normalize_active v = v"
  using assms
  by (auto simp: normalize_active_def coerce_active_def update_triv)

lemma normalized_record_renorm:
  assumes "normalized_record k v"
  shows "\<exists>ps. v = JObj ps \<and> truthy v \<and> typeof v = ''object'' \<and>
           validateConnectionString (map_of (entries v) ''connectionString'') k = Inr () \<and>
           normalize_active (entries v) = entries v"
proof -
  from assms obtain ps where v: "v = JObj ps"
    by (cases v) (simp_all add: normalized_record_def)
  from assms have d: "distinct (map fst ps)"
    and c: "validateConnectionString (map_of ps ''connectionString'') k = Inr ()"
    and a0: "case map_of ps ''active'' of None \<Rightarrow> True | Some a \<Rightarrow> typeof a = ''boolean''"
    by (simp_all add: normalized_record_def v)
  have a: "map_of ps ''active'' = None \<or> (\<exists>b. map_of ps ''active'' = Some (JBool b))"
  proof (cases "map_of ps ''active''")
    case None
    then show ?thesis by simp
  next
    case (Some x)
    with a0 have "typeof x = ''boolean''" by simp
    then obtain b where "x = JBool b" by (auto simp: typeof_boolean)
    with Some show ?thesis by simp
  qed
  have "normalize_active (own_entries ps) = own_entries ps"
    by (rule normalize_active_id) (use a in \<open>simp add: map_of_own_entries[OF d]\<close>)
  then show ?thesis
    using c by (simp add: v map_of_own_entries[OF d])
qed

lemma normalize_entries_normalized:
  assumes "list_all (\<lambda>p. normalized_record (fst p) (snd p)) es"
    and "distinct (map fst es)"
    and "''__proto__'' \<notin> set (map fst es)"
    and "set (map fst es) \<inter> set (map fst (clients acc)) = {}"
  shows "normalize_entries es acc = Inr (acc\<lparr>clients := clients acc @ map renormalized es\<rparr>)"
  using assms
proof (induction es arbitrary: acc)
  case Nil
  then show ?case by simp
next
  case (Cons e es)
  obtain k v where e: "e = (k, v)" by (cases e)
  from Cons.prems e have nr: "normalized_record k v" by simp
  from normalized_record_renorm[OF nr] obtain ps where v: "v = JObj ps"
    and ok: "validateConnectionString (map_of (entries v) ''connectionString'') k = Inr ()"
    and na: "normalize_active (entries v) = entries v"
    by blast
  from Cons.prems e have kp: "k \<noteq> ''__proto__''" and kacc: "k \<notin> fst ` set (clients acc)"
    by auto
  let ?acc' = "assign_client acc k (entries v)"
  have acc': "?acc' = acc\<lparr>clients := clients acc @ [(k, JObj (entries v))]\<rparr>"
    using kp kacc by (simp add: assign_client_def update_absent)
  have step: "normalize_entries (e # es) acc = normalize_entries es ?acc'"
    using ok na by (simp add: e v)
  have "normalize_entries es ?acc' = Inr (?acc'\<lparr>clients := clients ?acc' @ map renormalized es\<rparr>)"
  proof (rule Cons.IH)
    show "list_all (\<lambda>p. normalized_record (fst p) (snd p)) es" using Cons.prems by simp
    show "distinct (map fst es)" using Cons.prems by simp
    show "''__proto__'' \<notin> set (map fst es)" using Cons.prems by simp
    show "set (map fst es) \<inter> set (map fst (clients ?acc')) = {}"
      using Cons.prems e by (auto simp: acc')
  qed
  then have "normalize_entries (e # es) acc =
               Inr (?acc'\<lparr>clients := clients ?acc' @ map renormalized es\<rparr>)"
    by (simp only: step)
  also have "?acc'\<lparr>clients := clients ?acc' @ map renormalized es\<rparr> =
             acc\<lparr>clients := clients acc @ map renormalized (e # es)\<rparr>"
    by (simp add: acc' e renormalized_def)
  finally show ?case .
qed

lemma normalize_clients_normalized:
  assumes "normalized_model m"
  shows "normalize_clients (Some (JObj (clients m))) =
           Inr \<lparr>clients = map renormalized (own_entries (clients m)), clients_proto = None\<rparr>"
proof -
  from assms have ne: "clients m \<noteq> []" and d: "distinct (map fst (clients m))"
    and np: "''__proto__'' \<notin> set (map fst (clients m))"
    and nr: "list_all (\<lambda>p. normalized_record (fst p) (snd p)) (clients m)"
    by (auto simp: normalized_model_def)
  have ne': "own_entries (clients m) \<noteq> []"
    using ne set_own_entries[of "clients m"] by (metis set_empty)
  have nr': "list_all (\<lambda>p. normalized_record (fst p) (snd p)) (own_entries (clients m))"
    using nr by (simp add: list_all_iff set_own_entries)
  have np': "''__proto__'' \<notin> set (map fst (own_entries (clients m)))"
    using np unfolding set_map set_own_entries .
  have "normalize_entries (own_entries (clients m)) \<lparr>clients = [], clients_proto = None\<rparr> =
        Inr (\<lparr>clients = [], clients_proto = None\<rparr>
               \<lparr>clients := clients \<lparr>clients = [], clients_proto = None\<rparr>
                            @ map renormalized (own_entries (clients m))\<rparr>)"
    by (rule normalize_entries_normalized)
       (use nr' np' d in \<open>simp_all add: distinct_own_entries\<close>)
  then show ?thesis
    using ne' by (simp add: normalize_clients_def)
qed

section \<open>The loop of setActiveConnection\<close>

lemma set_active_step_map:
  assumes d: "distinct (map fst (clients m))" and k: "k \<in> fst ` set (clients m)"
  shows "set_active_step key k m =
           m\<lparr>clients := map (\<lambda>p. if fst p = k then activated key p else p) (clients m)\<rparr>"
proof -
  from k obtain v where kv: "(k, v) \<in> set (clients m)" by auto
  with d have mo: "map_of (clients m) k = Some v" by simp
  let ?new = "JObj (AList.update ''active'' (JBool (k = key)) (entries v))"
  have "AList.update k ?new (clients m) = map (\<lambda>p. if fst p = k then (k, ?new) else p) (clients m)"
    by (rule update_present_map[OF d k])
  also have "\<dots> = map (\<lambda>p. if fst p = k then activated key p else p) (clients m)"
  proof (rule map_cong[OF refl])
    fix p assume p: "p \<in> set (clients m)"
    show "(if fst p = k then (k, ?new) else p) = (if fst p = k then activated key p else p)"
    proof (cases "fst p = k")
      case True
      with p d kv have "p = (k, v)"
        by (metis eq_key_imp_eq_value prod.collapse)
      then show ?thesis by (simp add: activated_def)
    next
      case False
      then show ?thesis by simp
    qed
  qed
  finally show ?thesis
    by (simp add: set_active_step_def clients_get_def mo)
qed

lemma fold_set_active_step:
  assumes "distinct (map fst (clients m))" and "distinct ks"
    and "set ks \<subseteq> fst ` set (clients m)"
  shows "fold (set_active_step key) ks m =
           m\<lparr>clients := map (\<lambda>p. if fst p \<in> set ks then activated key p else p) (clients m)\<rparr>"
  using assms
proof (induction ks arbitrary: m)
  case Nil
  then show ?case by simp
next
  case (Cons k ks)
  let ?m1 = "m\<lparr>clients := map (\<lambda>p. if fst p = k then activated key p else p) (clients m)\<rparr>"
  have s: "set_active_step key k m = ?m1"
    using Cons.prems by (intro set_active_step_map) auto
  have keys1: "map fst (clients ?m1) = map fst (clients m)"
    by (simp add: activated_def comp_def cong: if_cong)
  have "fold (set_active_step key) ks ?m1 =
          ?m1\<lparr>clients := map (\<lambda>p. if fst p \<in> set ks then activated key p else p) (clients ?m1)\<rparr>"
  proof (rule Cons.IH)
    show "distinct (map fst (clients ?m1))" using Cons.prems(1) by (simp only: keys1)
    show "distinct ks" using Cons.prems(2) by simp
    have "fst ` set (clients ?m1) = fst ` set (clients m)"
      by (metis keys1 set_map)
    then show "set ks \<subseteq> fst ` set (clients ?m1)" using Cons.prems(3) by simp
  qed
  also have "\<dots> = m\<lparr>clients := map (\<lambda>p. if fst p \<in> set (k # ks) then activated key p else p)
                                  (clients m)\<rparr>"
    using Cons.prems(2) by (auto simp: activated_def)
  finally show ?case by (simp add: s)
qed

lemma set_active_loop_map:
  assumes "distinct (map fst (clients m))"
  shows "set_active_loop key m = m\<lparr>clients := map (activated key) (clients m)\<rparr>"
proof -
  have "fold (set_active_step key) (client_keys m) m =
          m\<lparr>clients := map (\<lambda>p. if fst p \<in> set (client_keys m) then activated key p else p)
                          (clients m)\<rparr>"
    by (rule fold_set_active_step)
       (use assms in \<open>simp_all add: client_keys_def distinct_own_entries set_own_entries\<close>)
  also have "map (\<lambda>p. if fst p \<in> set (client_keys m) then activated key p else p) (clients m)
             = map (activated key) (clients m)"
    by (rule map_cong[OF refl]) (simp add: client_keys_def set_own_entries)
  finally show ?thesis by (simp add: set_active_loop_def)
qed

lemma normalized_record_activated:
  assumes "normalized_record k v"
  shows "normalized_record k (JObj (AList.update ''active'' (JBool b) (entries v)))"
proof -
  from assms obtain ps where v: "v = JObj ps"
    by (cases v) (simp_all add: normalized_record_def)
  from assms have d: "distinct (map fst ps)"
    and c: "validateConnectionString (map_of ps ''connectionString'') k = Inr ()"
    by (simp_all add: normalized_record_def v)
  have d': "distinct (map fst (AList.update ''active'' (JBool b) (own_entries ps)))"
    by (rule distinct_update) (simp add: distinct_own_entries d)
  show ?thesis
    using c d' by (simp add: normalized_record_def v update_conv' map_of_own_entries[OF d])
qed

lemma normalized_model_activated:
  assumes "normalized_model m"
  shows "normalized_model (m\<lparr>clients := map (activated key) (clients m)\<rparr>)"
proof -
  have keys: "map fst (map (activated key) (clients m)) = map fst (clients m)"
    by (simp add: activated_def comp_def)
  have la: "list_all (\<lambda>p. normalized_record (fst p) (snd p)) (map (activated key) (clients m))"
    using assms
    by (auto simp: normalized_model_def list_all_iff activated_def normalized_record_activated)
  have c: "clients (m\<lparr>clients := map (activated key) (clients m)\<rparr>) = map (activated key) (clients m)"
    by simp
  show ?thesis
    unfolding normalized_model_def c keys
    using assms la by (auto simp: normalized_model_def)
qed

section \<open>Reading back what was written\<close>

lemma map_of_map_keyed:
  "map_of (map (\<lambda>p. (fst p, g (fst p) (snd p))) xs) k = map_option (g k) (map_of xs k)"
  by (induction xs) auto

lemma map_of_renormalized:
  "map_of (map renormalized xs) k = map_option (\<lambda>v. JObj (entries v)) (map_of xs k)"
  unfolding renormalized_def by (rule map_of_map_keyed)

lemma map_of_activated:
  "map_of (map (activated key) xs) k =
     map_option (\<lambda>v. JObj (AList.update ''active'' (JBool (k = key)) (entries v))) (map_of xs k)"
  unfolding activated_def
  by (rule map_of_map_keyed[where g = "\<lambda>k v. JObj (AList.update ''active'' (JBool (k = key)) (entries v))"])

lemma keys_renormalized: "map fst (map renormalized xs) = map fst xs"
  by (simp add: renormalized_def comp_def)

lemma keys_activated: "map fst (map (activated key) xs) = map fst xs"
  by (simp add: activated_def comp_def)

lemma client_keys_renormalized:
  "client_keys \<lparr>clients = map renormalized (own_entries cl), clients_proto = pr\<rparr> =
     map fst (own_entries cl)"
  by (simp add: client_keys_def own_entries_map renormalized_def own_entries_idem comp_def)

lemma client_keys_activated:
  "client_keys (m\<lparr>clients := map (activated key) (clients m)\<rparr>) = client_keys m"
  by (simp add: client_keys_def own_entries_map activated_def comp_def)

lemma own_prop_renormalized:
  assumes "normalized_record k v"
  shows "own_prop (JObj (entries v)) f = own_prop v f"
proof -
  from assms obtain ps where v: "v = JObj ps"
    by (cases v) (simp_all add: normalized_record_def)
  from assms have d: "distinct (map fst ps)"
    by (simp add: normalized_record_def v)
  show ?thesis by (simp add: v map_of_own_entries[OF d])
qed

lemma own_prop_activated:
  assumes "normalized_record k v"
  shows "own_prop (JObj (AList.update ''active'' (JBool b) (entries v))) f =
           (if f = ''active'' then Some (JBool b) else own_prop v f)"
proof -
  from assms obtain ps where v: "v = JObj ps"
    by (cases v) (simp_all add: normalized_record_def)
  from assms have d: "distinct (map fst ps)"
    by (simp add: normalized_record_def v)
  show ?thesis by (simp add: v update_conv' map_of_own_entries[OF d])
qed

lemma normalized_model_lookup:
  assumes "normalized_model m" and "map_of (clients m) k = Some v"
  shows "normalized_record k v"
proof -
  from assms(2) have "(k, v) \<in> set (clients m)" by (rule map_of_SomeD)
  with assms(1) show ?thesis
    by (auto simp: normalized_model_def list_all_iff)
qed

lemma parseRawToModel_serialized:
  assumes nm: "normalized_model m"
    and kind: "kind = ''json'' \<or> kind = ''yaml'' \<or> kind = ''ini''"
  shows "parseRawToModel (serialized_value m kind) kind =
           Inr \<lparr>clients = map renormalized (own_entries (clients m)), clients_proto = None\<rparr>"
  using kind normalize_clients_normalized[OF nm]
  by (auto simp: parseRawToModel_def serialized_value_def model_value_def)

lemma serializeModel_encode:
  assumes "kind = ''json'' \<or> kind = ''yaml'' \<or> kind = ''ini''"
  shows "serializeModel L m kind = Inr (encode L kind (serialized_value m kind))"
  using assms by (auto simp: serializeModel_def encode_def serialized_value_def)

lemma decode_encode:
  assumes "codec_roundtrip L kind v"
  shows "decode L kind (encode L kind v) = Inr v"
  using assms by (auto simp: codec_roundtrip_def decode_def encode_def split: if_splits)

lemma reread_fields:
  assumes nm: "normalized_model m"
  shows "map_of (map renormalized (own_entries (clients m))) k =
           map_option (\<lambda>v. JObj (entries v)) (map_of (clients m) k)"
proof -
  from nm have d: "distinct (map fst (clients m))" by (simp add: normalized_model_def)
  show ?thesis by (simp add: map_of_renormalized map_of_own_entries[OF d])
qed

lemma detectKindByExt_kinds:
  "detectKindByExt L f = Some kind \<Longrightarrow> kind = ''json'' \<or> kind = ''yaml'' \<or> kind = ''ini''"
  by (auto simp: detectKindByExt_def Let_def split: if_splits)

lemma loadConfig_SomeD:
  assumes "loadConfig L w f = Inr (kind, m)"
  shows "\<exists>content wr raw. fs w f = Some (File content True wr) \<and>
           detectKindByExt L f = Some kind \<and>
           decode L kind content = Inr raw \<and> parseRawToModel raw kind = Inr m"
  using assms
  by (auto simp: loadConfig_def readFileSafe_def
           split: sum.splits option.splits fsnode.splits if_splits)

lemma loadConfig_I:
  assumes "fs w f = Some (File content True wr)"
    and "detectKindByExt L f = Some kind"
    and "decode L kind content = Inr raw"
    and "parseRawToModel raw kind = Inr m"
  shows "loadConfig L w f = Inr (kind, m)"
  using assms by (simp add: loadConfig_def readFileSafe_def)

lemma only_active_loop:
  assumes nm: "normalized_model m"
  shows "only_active key m (m\<lparr>clients := map (activated key) (clients m)\<rparr>)"
proof -
  have "\<exists>v'. map_of (clients (m\<lparr>clients := map (activated key) (clients m)\<rparr>)) k = Some v' \<and>
               own_prop v' ''active'' = Some (JBool (k = key)) \<and>
               (\<forall>f. f \<noteq> ''active'' \<longrightarrow> own_prop v' f = own_prop v f)"
    if "map_of (clients m) k = Some v" for k v
    using that own_prop_activated[OF normalized_model_lookup[OF nm that]]
    by (simp add: map_of_activated)
  then show ?thesis
    unfolding only_active_def client_keys_activated by blast
qed

lemma only_active_reread:
  assumes nm: "normalized_model m"
  shows "only_active key m
           \<lparr>clients = map renormalized (own_entries (map (activated key) (clients m))),
            clients_proto = None\<rparr>"
proof -
  let ?m1 = "m\<lparr>clients := map (activated key) (clients m)\<rparr>"
  let ?m2 = "\<lparr>clients = map renormalized (own_entries (clients ?m1)), clients_proto = None\<rparr>"
  have nm1: "normalized_model ?m1" by (rule normalized_model_activated[OF nm])
  have keys: "client_keys ?m2 = client_keys m"
    using client_keys_activated[where m = m and key = key]
    by (simp add: client_keys_renormalized) (simp add: client_keys_def)
  have "\<exists>v'. map_of (clients ?m2) k = Some v' \<and>
               own_prop v' ''active'' = Some (JBool (k = key)) \<and>
               (\<forall>f. f \<noteq> ''active'' \<longrightarrow> own_prop v' f = own_prop v f)"
    if kv: "map_of (clients m) k = Some v" for k v
  proof -
    let ?v1 = "JObj (AList.update ''active'' (JBool (k = key)) (entries v))"
    have l1: "map_of (clients ?m1) k = Some ?v1"
      using kv by (simp add: map_of_activated)
    have r1: "normalized_record k ?v1"
      by (rule normalized_model_lookup[OF nm1 l1])
    have l2: "map_of (clients ?m2) k = Some (JObj (entries ?v1))"
      using reread_fields[OF nm1, of k] l1 by simp
    have "own_prop (JObj (entries ?v1)) f = own_prop ?v1 f" for f
      by (rule own_prop_renormalized[OF r1])
    then show ?thesis
      using l2 own_prop_activated[OF normalized_model_lookup[OF nm kv]] by simp
  qed
  then show ?thesis
    unfolding only_active_def using keys by simp
qed

lemma filter_key_eq:
  "distinct (map fst es) \<Longrightarrow> key \<in> fst ` set es \<Longrightarrow>
   map fst (filter (\<lambda>p. fst p = key) es) = [key]"
  by (induction es) (force simp: filter_empty_conv)+

lemma only_active_exactly_one:
  assumes oa: "only_active key m m'" and d: "distinct (map fst (clients m'))"
    and dm: "distinct (map fst (clients m))"
    and key: "key \<in> fst ` set (clients m)"
  shows "map fst (filter (\<lambda>p. own_prop (snd p) ''active'' = Some (JBool True))
                    (own_entries (clients m'))) = [key]"
proof -
  let ?es = "own_entries (clients m')"
  have des: "distinct (map fst ?es)" by (simp add: distinct_own_entries d)
  have keys: "fst ` set ?es = fst ` set (clients m)"
  proof -
    from oa have "client_keys m' = client_keys m" by (simp add: only_active_def)
    then have "set (client_keys m') = set (client_keys m)" by simp
    then show ?thesis by (simp add: client_keys_def set_own_entries)
  qed
  have "filter (\<lambda>p. own_prop (snd p) ''active'' = Some (JBool True)) ?es =
        filter (\<lambda>p. fst p = key) ?es"
  proof (rule filter_cong[OF refl])
    fix p assume p: "p \<in> set ?es"
    obtain k v' where pk: "p = (k, v')" by (cases p)
    from p pk have "k \<in> fst ` set (clients m)" using keys by force
    then obtain v where "(k, v) \<in> set (clients m)" by auto
    with dm have "map_of (clients m) k = Some v" by simp
    with oa obtain v2 where v2: "map_of (clients m') k = Some v2"
      and a: "own_prop v2 ''active'' = Some (JBool (k = key))"
      unfolding only_active_def by blast
    from p pk have "(k, v') \<in> set (clients m')" by (simp add: set_own_entries)
    with d have "map_of (clients m') k = Some v'" by simp
    with v2 have "v' = v2" by simp
    with a show "(own_prop (snd p) ''active'' = Some (JBool True)) = (fst p = key)"
      by (simp add: pk)
  qed
  moreover have "map fst (filter (\<lambda>p. fst p = key) ?es) = [key]"
    by (rule filter_key_eq[OF des]) (simp add: keys key)
  ultimately show ?thesis by simp
qed

lemma setActiveConnection_ok:
  assumes "findConfigFile L w = Inr (Some f)"
    and "loadConfig L w f = Inr (kind, m)"
    and "truthy_lookup (clients_get m (c # cs))"
    and "saveConfig L w f kind (set_active_loop (c # cs) m) = Inr w'"
  shows "setActiveConnection L w (Some (JStr (c # cs))) = (Inr True, w')"
  using assms by (simp add: setActiveConnection_def)

section \<open>The resolver\<close>

lemma getActiveConnection_loaded:
  assumes "findConfigFile L w = Inr (Some f)" and "loadConfig L w f = Inr (kind, m)"
  shows "getActiveConnection L w = resolveActive (DB_CLIENT w) m"
  using assms by (simp add: getActiveConnection_def)

lemma filter_find:
  "filter P xs = (case List.find P xs of None \<Rightarrow> [] | Some x \<Rightarrow> x # tl (filter P xs))"
  by (induction xs) (auto split: option.splits)

lemma resolveActive_scan:
  assumes "envKey = None \<or> envKey = Some []"
  shows "resolveActive envKey m =
           (case List.find (\<lambda>p. truthy_opt (own_prop (snd p) ''active'')) (own_entries (clients m)) of
              None \<Rightarrow> Inr None
            | Some p \<Rightarrow> Inr (Some (JObj (with_key (fst p) (entries (snd p))))))"
proof -
  let ?P = "\<lambda>p. truthy_opt (own_prop (snd p) ''active'')"
  let ?es = "own_entries (clients m)"
  have "resolveActive envKey m =
          (case filter ?P ?es of [] \<Rightarrow> Inr None
           | (key, val) # others \<Rightarrow> Inr (Some (JObj (with_key key (entries val)))))"
    using assms by (auto simp: resolveActive_def)
  also have "\<dots> = (case List.find ?P ?es of None \<Rightarrow> Inr None
            | Some p \<Rightarrow> Inr (Some (JObj (with_key (fst p) (entries (snd p))))))"
    by (subst filter_find) (auto split: option.splits prod.splits)
  finally show ?thesis .
qed

lemma findConfigFile_env [simp]: "findConfigFile L (w\<lparr>DB_CLIENT := e\<rparr>) = findConfigFile L w"
proof -
  have fe: "first_existing L (w\<lparr>DB_CLIENT := e\<rparr>) cs = first_existing L w cs" for cs
    by (induction cs) (simp_all add: Let_def)
  show ?thesis
    unfolding findConfigFile_def fe
    by (simp del: first_existing.simps split: option.splits list.splits)
qed

lemma loadConfig_env [simp]: "loadConfig L (w\<lparr>DB_CLIENT := e\<rparr>) f = loadConfig L w f"
  by (simp add: loadConfig_def readFileSafe_def)

lemma with_key_shadowed:
  assumes "distinct (map fst ps)" and "map_of ps ''key'' = Some x"
  shows "own_prop (JObj (with_key k (entries (JObj ps)))) ''key'' = Some x"
proof -
  have d: "distinct (map fst (own_entries ps))" by (simp add: distinct_own_entries assms(1))
  show ?thesis
    using assms(2) by (simp add: map_of_with_key[OF d] map_of_own_entries[OF assms(1)])
qed

lemma listConnections_loaded:
  assumes "findConfigFile L w = Inr (Some f)" and "loadConfig L w f = Inr (kind, m)"
  shows "listConnections L w =
           Inr (map (\<lambda>p. JObj (with_key (fst p) (entries (snd p)))) (own_entries (clients m)))"
  using assms by (simp add: listConnections_def)

lemma getConnectionByKey_loaded:
  assumes "findConfigFile L w = Inr (Some f)" and "loadConfig L w f = Inr (kind, m)"
    and "k \<noteq> []" and "map_of (clients m) k = Some v" and "truthy v"
  shows "getConnectionByKey L w (Some (JStr k)) = Inr (Some (JObj (with_key k (entries v))))"
proof -
  obtain c cs where k: "k = c # cs" using assms(3) by (cases k) auto
  show ?thesis
    using assms(1,2,4,5) by (simp add: getConnectionByKey_def k clients_get_def)
qed

section \<open>What normalization does to each client\<close>

lemma assign_client_other:
  "k \<noteq> key \<Longrightarrow> map_of (clients (assign_client acc key v)) k = map_of (clients acc) k"
  by (simp add: assign_client_def update_conv')

lemma normalize_entries_Cons_Inr:
  assumes "normalize_entries ((key, val) # rest) acc = Inr m"
  shows "truthy val \<and> typeof val = ''object'' \<and>
         normalize_entries rest (assign_client acc key (normalize_active (entries val))) = Inr m"
  using assms by (auto simp: Let_def split: if_splits sum.splits)

lemma normalize_entries_other:
  "normalize_entries es acc = Inr m \<Longrightarrow> k \<notin> fst ` set es \<Longrightarrow>
   map_of (clients m) k = map_of (clients acc) k"
proof (induction es arbitrary: acc)
  case Nil
  then show ?case by simp
next
  case (Cons e es)
  obtain key val where e: "e = (key, val)" by (cases e)
  from Cons.prems(1) have
    r: "normalize_entries es (assign_client acc key (normalize_active (entries val))) = Inr m"
    unfolding e by (rule normalize_entries_Cons_Inr[THEN conjunct2, THEN conjunct2])
  from Cons.prems(2) e have nk: "k \<noteq> key" and nr: "k \<notin> fst ` set es" by auto
  show ?case
    using Cons.IH[OF r nr] by (simp add: assign_client_other[OF nk])
qed

lemma normalize_entries_lookup:
  "normalize_entries es acc = Inr m \<Longrightarrow> distinct (map fst es) \<Longrightarrow> (k, val) \<in> set es \<Longrightarrow>
   k \<noteq> ''__proto__'' \<Longrightarrow>
   map_of (clients m) k = Some (JObj (normalize_active (entries val)))"
proof (induction es arbitrary: acc)
  case Nil
  then show ?case by simp
next
  case (Cons e es)
  obtain key v where e: "e = (key, v)" by (cases e)
  from Cons.prems(1) have
    r: "normalize_entries es (assign_client acc key (normalize_active (entries v))) = Inr m"
    unfolding e by (rule normalize_entries_Cons_Inr[THEN conjunct2, THEN conjunct2])
  show ?case
  proof (cases "(k, val) = (key, v)")
    case True
    with Cons.prems(2) e have "k \<notin> fst ` set es" by auto
    from normalize_entries_other[OF r this] True Cons.prems(4)
    show ?thesis by (simp add: assign_client_def update_conv')
  next
    case False
    with Cons.prems(3) e have "(k, val) \<in> set es" by auto
    moreover from Cons.prems(2) have "distinct (map fst es)" by simp
    ultimately show ?thesis using Cons.IH[OF r] Cons.prems(4) by blast
  qed
qed

lemma normalize_entries_objects:
  "normalize_entries es acc = Inr m \<Longrightarrow> (k, val) \<in> set es \<Longrightarrow>
   truthy val \<and> typeof val = ''object''"
proof (induction es arbitrary: acc)
  case Nil
  then show ?case by simp
next
  case (Cons e es)
  obtain key v where e: "e = (key, v)" by (cases e)
  from normalize_entries_Cons_Inr[OF Cons.prems(1)[unfolded e]] Cons.prems(2) Cons.IH e
  show ?case by auto
qed

lemma normalize_clients_Inr:
  assumes "normalize_clients (Some cv) = Inr m"
  shows "normalize_entries (entries cv) \<lparr>clients = [], clients_proto = None\<rparr> = Inr m"
  using assms by (auto simp: normalize_clients_def split: if_splits)

lemma own_prop_clients_array: "own_prop (JArr xs) ''clients'' = None"
  by (simp add: array_index_def is_digit_def)

section \<open>Loaded models are normalized\<close>

lemma digit_char: "(d::nat) < 10 \<Longrightarrow> char_of (48 + d) \<in> set ''0123456789''"
proof -
  assume "d < 10"
  then have "d \<in> {0,1,2,3,4,5,6,7,8,9}" by auto
  then show ?thesis by (auto simp: char_of_eq_iff)
qed

lemma nat_to_string_digits: "set (nat_to_string n) \<subseteq> set ''0123456789''"
proof (induction n rule: nat_to_string.induct)
  case (1 n)
  show ?case
  proof (cases "n < 10")
    case True
    then show ?thesis using digit_char[of n] by (subst nat_to_string.simps) simp
  next
    case False
    have "n mod 10 < 10" by simp
    from digit_char[OF this] 1[OF False] False
    show ?thesis by (subst nat_to_string.simps) simp
  qed
qed

lemma digit_value_char: "(d::nat) < 10 \<Longrightarrow> digit_value (char_of (48 + d)) = d"
  by (simp add: digit_value_def take_bit_eq_mod)

lemma string_to_nat_to_string: "string_to_nat (nat_to_string n) = n"
proof (induction n rule: nat_to_string.induct)
  case (1 n)
  show ?case
  proof (cases "n < 10")
    case True
    then show ?thesis
      by (subst nat_to_string.simps) (simp add: string_to_nat_def digit_value_char)
  next
    case False
    have "string_to_nat (nat_to_string n) =
            10 * string_to_nat (nat_to_string (n div 10)) + digit_value (char_of (48 + n mod 10))"
      using False by (subst nat_to_string.simps) (simp add: string_to_nat_def)
    also have "\<dots> = 10 * (n div 10) + n mod 10"
      using 1[OF False] by (simp add: digit_value_char)
    finally show ?thesis by simp
  qed
qed

lemma inj_nat_to_string: "inj nat_to_string"
  by (rule inj_on_inverseI[where g = string_to_nat]) (rule string_to_nat_to_string)

lemma distinct_array_keys: "distinct (map fst (entries (JArr xs)))"
  by (simp add: distinct_map inj_on_subset[OF inj_nat_to_string])

lemma set_update_subset: "set (AList.update k v al) \<subseteq> insert (k, v) (set al)"
  by (induction al) auto

lemma wf_entries:
  assumes "wf_value val" and "truthy val" and "typeof val = ''object''"
  shows "distinct (map fst (entries val)) \<and> (\<forall>p \<in> set (entries val). wf_value (snd p))"
proof (cases val)
  case (JObj ps)
  with assms(1) show ?thesis by (auto simp: distinct_own_entries set_own_entries)
next
  case (JArr xs)
  have "\<forall>p \<in> set (entries (JArr xs)). wf_value (snd p)"
    using assms(1) JArr by (auto dest: set_zip_rightD)
  with JArr distinct_array_keys[of xs] show ?thesis by simp
qed (use assms in simp_all)

lemma normalize_active_keys: "map fst (normalize_active v) = map fst v"
  by (auto simp: normalize_active_def update_keys map_of_eq_None_iff split: option.splits)

lemma normalize_active_other:
  "f \<noteq> ''active'' \<Longrightarrow> map_of (normalize_active v) f = map_of v f"
  by (simp add: normalize_active_def update_conv' split: option.splits)

lemma normalize_active_boolean:
  "map_of (normalize_active v) ''active'' = None \<or>
   (\<exists>b. map_of (normalize_active v) ''active'' = Some (JBool b))"
  by (simp add: normalize_active_def update_conv' split: option.splits)

lemma normalize_entries_Cons_valid:
  assumes "normalize_entries ((key, val) # rest) acc = Inr m"
  shows "validateConnectionString (map_of (entries val) ''connectionString'') key = Inr ()"
  using assms by (auto simp: Let_def split: if_splits sum.splits)

lemma normalized_record_normalize:
  assumes wf: "wf_value val" and t: "truthy val" and ty: "typeof val = ''object''"
    and ok: "validateConnectionString (map_of (entries val) ''connectionString'') key = Inr ()"
  shows "normalized_record key (JObj (normalize_active (entries val)))"
proof -
  have d: "distinct (map fst (normalize_active (entries val)))"
    using wf_entries[OF wf t ty] by (simp add: normalize_active_keys)
  have c: "map_of (normalize_active (entries val)) ''connectionString'' =
           map_of (entries val) ''connectionString''"
    by (rule normalize_active_other) simp
  from normalize_active_boolean[of "entries val"]
  have a: "case map_of (normalize_active (entries val)) ''active'' of
             None \<Rightarrow> True | Some a \<Rightarrow> typeof a = ''boolean''"
    by auto
  show ?thesis
    using d ok a by (simp add: normalized_record_def c)
qed

lemma assign_client_invariant:
  assumes "model_invariant acc" and "normalized_record key (JObj v)"
  shows "model_invariant (assign_client acc key v)"
proof (cases "key = ''__proto__''")
  case True
  with assms(1) show ?thesis by (simp add: assign_client_def model_invariant_def)
next
  case False
  let ?cl = "AList.update key (JObj v) (clients acc)"
  have 1: "distinct (map fst ?cl)"
    using assms(1) by (simp add: model_invariant_def distinct_update)
  have 2: "''__proto__'' \<notin> fst ` set ?cl"
    using assms(1) False by (auto simp: model_invariant_def dom_update)
  have 3: "list_all (\<lambda>p. normalized_record (fst p) (snd p)) ?cl"
    using assms set_update_subset[of key "JObj v" "clients acc"]
    by (auto simp: model_invariant_def list_all_iff)
  from 1 2 3 False show ?thesis
    by (simp add: assign_client_def model_invariant_def)
qed

lemma normalize_entries_invariant:
  "normalize_entries es acc = Inr m \<Longrightarrow> \<forall>p \<in> set es. wf_value (snd p) \<Longrightarrow>
   model_invariant acc \<Longrightarrow> model_invariant m"
proof (induction es arbitrary: acc)
  case Nil
  then show ?case by simp
next
  case (Cons e es)
  obtain key val where e: "e = (key, val)" by (cases e)
  note s = Cons.prems(1)[unfolded e]
  from normalize_entries_Cons_Inr[OF s] have t: "truthy val" and ty: "typeof val = ''object''"
    and r: "normalize_entries es (assign_client acc key (normalize_active (entries val))) = Inr m"
    by simp_all
  from Cons.prems(2) e have wf: "wf_value val" by simp
  have nr: "normalized_record key (JObj (normalize_active (entries val)))"
    by (rule normalized_record_normalize[OF wf t ty normalize_entries_Cons_valid[OF s]])
  show ?case
    by (rule Cons.IH[OF r]) (use Cons.prems(2) in simp, rule assign_client_invariant[OF Cons.prems(3) nr])
qed

lemma wf_own_prop: "wf_value raw \<Longrightarrow> own_prop raw k = Some c \<Longrightarrow> wf_value c"
proof (cases raw)
  case (JObj ps)
  assume "wf_value raw" "own_prop raw k = Some c"
  with JObj show ?thesis by (auto dest: map_of_SomeD)
next
  case (JArr xs)
  assume "wf_value raw" "own_prop raw k = Some c"
  with JArr show ?thesis by (auto split: option.splits if_splits)
qed simp_all

lemma parseRawToModel_Inr:
  assumes "parseRawToModel raw kind = Inr m"
  shows "normalize_clients (Some raw) = Inr m \<or>
         (\<exists>c. own_prop raw ''clients'' = Some c \<and> normalize_clients (Some c) = Inr m)"
  using assms
  by (auto simp: parseRawToModel_def split: if_splits)
     (cases "own_prop raw ''clients''"; simp)+

lemma normalize_clients_invariant:
  assumes "normalize_clients (Some cv) = Inr m" and "wf_value cv"
  shows "model_invariant m"
proof -
  from assms(1) have t: "truthy cv" and ty: "typeof cv = ''object''"
    by (auto simp: normalize_clients_def split: if_splits)
  show ?thesis
    by (rule normalize_entries_invariant[OF normalize_clients_Inr[OF assms(1)]])
       (use wf_entries[OF assms(2) t ty] in \<open>simp_all add: model_invariant_def\<close>)
qed

lemma parseRawToModel_normalized:
  assumes "parseRawToModel raw kind = Inr m" and "wf_value raw" and "clients m \<noteq> []"
  shows "normalized_model m"
proof -
  from parseRawToModel_Inr[OF assms(1)] have "model_invariant m"
    using normalize_clients_invariant wf_own_prop[OF assms(2)] assms(2) by blast
  with assms(3) show ?thesis
    by (simp add: model_invariant_def normalized_model_def)
qed

lemma loadConfig_normalized:
  assumes "loadConfig L w f = Inr (kind, m)"
    and "\<And>s raw. decode L kind s = Inr raw \<Longrightarrow> wf_value raw"
    and "clients m \<noteq> []"
  shows "normalized_model m"
proof -
  from loadConfig_SomeD[OF assms(1)] obtain content raw where
      "decode L kind content = Inr raw" and "parseRawToModel raw kind = Inr m"
    by blast
  with assms(2,3) show ?thesis
    by (blast intro: parseRawToModel_normalized)
qed

section \<open>The concrete configuration, evaluated\<close>

lemmas js_eval =
  own_entries_def array_index_def is_digit_def digit_value_def index_of_def
  normalize_active_def coerce_active_def validateConnectionString_def trim_def is_space_def
  assign_client_def normalize_clients_def parseRawToModel_def model_value_def

lemma demo_find: "findConfigFile demo_libs (demo_world env content) = Inr (Some demo_path)"
  by (simp add: findConfigFile_def demo_libs_def demo_world_def demo_path_def)

lemma demo_kind: "detectKindByExt demo_libs demo_path = Some ''json''"
  by (simp add: detectKindByExt_def demo_libs_def demo_path_def toLowerCase_def lower_char_def)

lemma demo_parse_ab: "json_parse demo_libs doc_ab_text = Inr (model_value model_ab)"
  by (simp add: demo_libs_def demo_docs_def)

lemma normalize_ab: "parseRawToModel (model_value model_ab) ''json'' = Inr model_ab"
  by (simp add: js_eval model_ab_def)

lemma demo_load_ab:
  "loadConfig demo_libs (demo_world env doc_ab_text) demo_path = Inr (''json'', model_ab)"
  by (simp add: loadConfig_def readFileSafe_def demo_world_def demo_kind decode_def
                demo_parse_ab normalize_ab)

lemma demo_parse_eb: "json_parse demo_libs doc_eb_text = Inr (model_value model_eb)"
  by (simp add: demo_libs_def demo_docs_def doc_ab_text_def doc_ba_text_def doc_eb_text_def)

lemma demo_parse_key: "json_parse demo_libs doc_key_text = Inr (model_value model_key)"
  by (simp add: demo_libs_def demo_docs_def doc_ab_text_def doc_ba_text_def doc_eb_text_def
                doc_key_text_def)

lemma demo_parse_ba: "json_parse demo_libs doc_ba_text = Inr (model_value model_ba)"
  by (simp add: demo_libs_def demo_docs_def doc_ab_text_def doc_ba_text_def)

lemma normalize_eb: "parseRawToModel (model_value model_eb) ''json'' = Inr model_eb"
  by (simp add: js_eval model_eb_def)

lemma normalize_key: "parseRawToModel (model_value model_key) ''json'' = Inr model_key"
  by (simp add: js_eval model_key_def)

lemma demo_load_eb:
  "loadConfig demo_libs (demo_world env doc_eb_text) demo_path = Inr (''json'', model_eb)"
  by (simp add: loadConfig_def readFileSafe_def demo_world_def demo_kind decode_def
                demo_parse_eb normalize_eb)

lemma demo_load_key:
  "loadConfig demo_libs (demo_world env doc_key_text) demo_path = Inr (''json'', model_key)"
  by (simp add: loadConfig_def readFileSafe_def demo_world_def demo_kind decode_def
                demo_parse_key normalize_key)

lemma normalized_model_ab: "normalized_model model_ab"
  by (simp add: normalized_model_def normalized_record_def model_ab_def js_eval)

lemma normalized_model_eb: "normalized_model model_eb"
  by (simp add: normalized_model_def normalized_record_def model_eb_def js_eval)

lemma set_active_loop_ab: "set_active_loop ''b'' model_ab = model_ba"
  by (simp add: set_active_loop_def set_active_step_def client_keys_def clients_get_def
                model_ab_def model_ba_def js_eval)

lemma demo_codec_ba: "codec_roundtrip demo_libs ''json'' (serialized_value model_ba ''json'')"
  by (simp add: codec_roundtrip_def serialized_value_def demo_libs_def demo_docs_def
                model_value_def model_ab_def model_ba_def doc_ab_text_def doc_ba_text_def)

lemma demo_codec_ab: "codec_roundtrip demo_libs ''json'' (serialized_value model_ab ''json'')"
  by (simp add: codec_roundtrip_def serialized_value_def demo_libs_def demo_docs_def
                model_value_def model_ab_def model_ba_def doc_ab_text_def doc_ba_text_def)

lemmas resolve_eval =
  resolveActive_def clients_get_def with_key_def client_keys_def object_prototype_names_def
  own_entries_def array_index_def is_digit_def digit_value_def index_of_def

section \<open>Inherited property names\<close>

text \<open>
  \<^verbatim>\<open>model.clients[k]\<close> also finds what \<^verbatim>\<open>model.clients\<close> inherits. The name \<^verbatim>\<open>constructor\<close> is no
  client of the configuration, yet as \<^verbatim>\<open>DB_CLIENT\<close> it is accepted.
\<close>

lemma inherited_name_accepted:
  "clients_get model_ab ''constructor'' = Builtin \<and>
   ''constructor'' \<notin> fst ` set (clients model_ab) \<and>
   getActiveConnection demo_libs (demo_world (Some ''constructor'') doc_ab_text) =
     Inr (Some (JObj [(''key'', JStr ''constructor'')]))"
  by (simp add: getActiveConnection_loaded[OF demo_find demo_load_ab])
     (simp add: demo_world_def model_ab_def resolve_eval)

text \<open>
  A client named \<^verbatim>\<open>__proto__\<close> passes validation and becomes the prototype of
  \<^verbatim>\<open>model.clients\<close>, not one of its clients.
\<close>

lemma proto_key_not_a_client:
  "parseRawToModel
     (JObj [(''clients'', JObj [(''__proto__'', JObj [(''connectionString'', JStr ''pg://p'')])])])
     ''json'' =
   Inr \<lparr>clients = [], clients_proto = Some [(''connectionString'', JStr ''pg://p'')]\<rparr>"
  by (simp add: js_eval)

section \<open>Claims\<close>

subsection \<open>C1\<close>

text \<open>
  Claim C1, amended. For every normalized model loaded from the located file and every
  non-empty key present in \<^verbatim>\<open>model.clients\<close>, when the file is writable,
  \<open>setActiveConnection\<close> returns true and overwrites the file with the encoding of a model in
  which that key's \<^verbatim>\<open>active\<close> is true, every other key's \<^verbatim>\<open>active\<close> is false and all other
  fields of every record are unchanged. When the codec gives that model back from its
  encoding, loading the file again yields such a model, and exactly one client has
  \<^verbatim>\<open>active = true\<close>: the target key.
\<close>

theorem set_active_persists:
  assumes find: "findConfigFile L w = Inr (Some f)"
    and load: "loadConfig L w f = Inr (kind, m)"
    and nm: "normalized_model m"
    and key: "key \<noteq> []" "key \<in> fst ` set (clients m)"
    and wr: "fs w f = Some (File old r True)"
  shows "\<exists>txt.
      serializeModel L (set_active_loop key m) kind = Inr txt \<and>
      setActiveConnection L w (Some (JStr key)) =
        (Inr True, w\<lparr>fs := (fs w)(f \<mapsto> File txt r True)\<rparr>) \<and>
      only_active key m (set_active_loop key m) \<and>
      (codec_roundtrip L kind (serialized_value (set_active_loop key m) kind) \<longrightarrow>
         (\<exists>m''.
            loadConfig L (w\<lparr>fs := (fs w)(f \<mapsto> File txt r True)\<rparr>) f = Inr (kind, m'') \<and>
            only_active key m m'' \<and>
            map fst (filter (\<lambda>p. own_prop (snd p) ''active'' = Some (JBool True))
                       (own_entries (clients m''))) = [key]))"
proof -
  from nm have d: "distinct (map fst (clients m))" by (simp add: normalized_model_def)
  let ?m1 = "m\<lparr>clients := map (activated key) (clients m)\<rparr>"
  let ?m2 = "\<lparr>clients = map renormalized (own_entries (map (activated key) (clients m))),
             clients_proto = None\<rparr>"
  let ?txt = "encode L kind (serialized_value ?m1 kind)"
  let ?w' = "w\<lparr>fs := (fs w)(f \<mapsto> File ?txt r True)\<rparr>"
  have loop: "set_active_loop key m = ?m1" by (rule set_active_loop_map[OF d])
  from loadConfig_SomeD[OF load] obtain content wr' raw where
      rd: "fs w f = Some (File content True wr')" and dk: "detectKindByExt L f = Some kind"
    by blast
  from rd wr have r: "r = True" by simp
  have kind: "kind = ''json'' \<or> kind = ''yaml'' \<or> kind = ''ini''"
    by (rule detectKindByExt_kinds[OF dk])
  have nm1: "normalized_model ?m1" by (rule normalized_model_activated[OF nm])
  from key(2) obtain v where "(key, v) \<in> set (clients m)" by auto
  with d have kv: "map_of (clients m) key = Some v" by simp
  have "normalized_record key v" by (rule normalized_model_lookup[OF nm kv])
  then have tv: "truthy v" by (cases v) (simp_all add: normalized_record_def)
  have found: "truthy_lookup (clients_get m key)"
    by (simp add: clients_get_def kv tv)
  have ser: "serializeModel L ?m1 kind = Inr ?txt"
    by (rule serializeModel_encode[OF kind])
  have save: "saveConfig L w f kind ?m1 = Inr ?w'"
    by (simp add: saveConfig_def ser writeFileSafe_def wr)
  obtain c cs where kc: "key = c # cs" using key(1) by (cases key) auto
  have set: "setActiveConnection L w (Some (JStr key)) = (Inr True, ?w')"
    unfolding kc
    by (rule setActiveConnection_ok[OF find load[unfolded kc]])
       (use found save in \<open>simp_all add: kc[symmetric] loop\<close>)
  have prs: "parseRawToModel (serialized_value ?m1 kind) kind = Inr ?m2"
    using parseRawToModel_serialized[OF nm1 kind] by simp
  have reload: "loadConfig L ?w' f = Inr (kind, ?m2)"
    if codec: "codec_roundtrip L kind (serialized_value ?m1 kind)"
  proof -
    have dec: "decode L kind ?txt = Inr (serialized_value ?m1 kind)"
      using codec by (simp add: decode_encode)
    show ?thesis
      by (rule loadConfig_I[where content = ?txt and wr = True
                              and raw = "serialized_value ?m1 kind"])
         (simp_all add: r dk dec prs)
  qed
  have oa1: "only_active key m ?m1" by (rule only_active_loop[OF nm])
  have oa2: "only_active key m ?m2" by (rule only_active_reread[OF nm])
  have "distinct (map fst (map renormalized (own_entries (map (activated key) (clients m)))))"
    unfolding keys_renormalized distinct_own_entries keys_activated by (rule d)
  then have d2: "distinct (map fst (clients ?m2))"
    by (simp only: model.simps)
  have one: "map fst (filter (\<lambda>p. own_prop (snd p) ''active'' = Some (JBool True))
                 (own_entries (clients ?m2))) = [key]"
    by (rule only_active_exactly_one[OF oa2 d2 d key(2)])
  show ?thesis
    unfolding loop
  proof (intro exI conjI impI)
    show "serializeModel L ?m1 kind = Inr ?txt" by (rule ser)
    show "setActiveConnection L w (Some (JStr key)) = (Inr True, ?w')" by (rule set)
    show "only_active key m ?m1" by (rule oa1)
    show "only_active key m ?m2" by (rule oa2)
    show "map fst (filter (\<lambda>p. own_prop (snd p) ''active'' = Some (JBool True))
                       (own_entries (clients ?m2))) = [key]" by (rule one)
    assume "codec_roundtrip L kind (serialized_value ?m1 kind)"
    then show "loadConfig L ?w' f = Inr (kind, ?m2)" by (rule reload)
  qed
qed

text \<open>
  The theorem of C1 at the configuration with clients \<^verbatim>\<open>a\<close> (active) and \<^verbatim>\<open>b\<close>, for the key
  \<^verbatim>\<open>b\<close>.
\<close>

theorem set_active_persists_witness:
  "normalized_model model_ab \<and> ''b'' \<in> fst ` set (clients model_ab) \<and>
   (\<exists>txt m''.
      serializeModel demo_libs (set_active_loop ''b'' model_ab) ''json'' = Inr txt \<and>
      setActiveConnection demo_libs (demo_world None doc_ab_text) (Some (JStr ''b'')) =
        (Inr True, (demo_world None doc_ab_text)
           \<lparr>fs := (fs (demo_world None doc_ab_text))(demo_path \<mapsto> File txt True True)\<rparr>) \<and>
      only_active ''b'' model_ab (set_active_loop ''b'' model_ab) \<and>
      loadConfig demo_libs ((demo_world None doc_ab_text)
           \<lparr>fs := (fs (demo_world None doc_ab_text))(demo_path \<mapsto> File txt True True)\<rparr>)
        demo_path = Inr (''json'', m'') \<and>
      only_active ''b'' model_ab m'' \<and>
      map fst (filter (\<lambda>p. own_prop (snd p) ''active'' = Some (JBool True))
                 (own_entries (clients m''))) = [''b''])"
proof -
  have k: "''b'' \<in> fst ` set (clients model_ab)" by (simp add: model_ab_def)
  have w: "fs (demo_world None doc_ab_text) demo_path = Some (File doc_ab_text True True)"
    by (simp add: demo_world_def)
  have c: "codec_roundtrip demo_libs ''json''
             (serialized_value (set_active_loop ''b'' model_ab) ''json'')"
    by (simp only: set_active_loop_ab demo_codec_ba)
  note T = set_active_persists[OF demo_find demo_load_ab normalized_model_ab _ k w]
  have ne: "''b'' \<noteq> []" by simp
  from T[OF ne] obtain t where T':
      "serializeModel demo_libs (set_active_loop ''b'' model_ab) ''json'' = Inr t \<and>
       setActiveConnection demo_libs (demo_world None doc_ab_text) (Some (JStr ''b'')) =
        (Inr True, (demo_world None doc_ab_text)
           \<lparr>fs := (fs (demo_world None doc_ab_text))(demo_path \<mapsto> File t True True)\<rparr>) \<and>
       only_active ''b'' model_ab (set_active_loop ''b'' model_ab) \<and>
       (codec_roundtrip demo_libs ''json''
                (serialized_value (set_active_loop ''b'' model_ab) ''json'') \<longrightarrow>
         (\<exists>m''.
            loadConfig demo_libs ((demo_world None doc_ab_text)
                \<lparr>fs := (fs (demo_world None doc_ab_text))(demo_path \<mapsto> File t True True)\<rparr>)
              demo_path = Inr (''json'', m'') \<and>
            only_active ''b'' model_ab m'' \<and>
            map fst (filter (\<lambda>p. own_prop (snd p) ''active'' = Some (JBool True))
                       (own_entries (clients m''))) = [''b'']))"
    ..
  note 1 = T'[THEN conjunct1]
  note 2 = T'[THEN conjunct2, THEN conjunct1]
  note 3 = T'[THEN conjunct2, THEN conjunct2, THEN conjunct1]
  from T'[THEN conjunct2, THEN conjunct2, THEN conjunct2, rule_format, OF c]
  obtain m'' where R:
      "loadConfig demo_libs ((demo_world None doc_ab_text)
                \<lparr>fs := (fs (demo_world None doc_ab_text))(demo_path \<mapsto> File t True True)\<rparr>)
              demo_path = Inr (''json'', m'') \<and>
       only_active ''b'' model_ab m'' \<and>
       map fst (filter (\<lambda>p. own_prop (snd p) ''active'' = Some (JBool True))
                       (own_entries (clients m''))) = [''b'']"
    ..
  show ?thesis
  proof (intro conjI exI)
    show "normalized_model model_ab" by (rule normalized_model_ab)
    show "''b'' \<in> fst ` set (clients model_ab)" by (rule k)
    show "serializeModel demo_libs (set_active_loop ''b'' model_ab) ''json'' = Inr t" by (rule 1)
    show "setActiveConnection demo_libs (demo_world None doc_ab_text) (Some (JStr ''b'')) =
        (Inr True, (demo_world None doc_ab_text)
           \<lparr>fs := (fs (demo_world None doc_ab_text))(demo_path \<mapsto> File t True True)\<rparr>)"
      by (rule 2)
    show "only_active ''b'' model_ab (set_active_loop ''b'' model_ab)" by (rule 3)
    show "loadConfig demo_libs ((demo_world None doc_ab_text)
                \<lparr>fs := (fs (demo_world None doc_ab_text))(demo_path \<mapsto> File t True True)\<rparr>)
              demo_path = Inr (''json'', m'')" by (rule R[THEN conjunct1])
    show "only_active ''b'' model_ab m''" by (rule R[THEN conjunct2, THEN conjunct1])
    show "map fst (filter (\<lambda>p. own_prop (snd p) ''active'' = Some (JBool True))
                       (own_entries (clients m''))) = [''b'']"
      by (rule R[THEN conjunct2, THEN conjunct2])
  qed
qed

text \<open>
  Claim C1 as stated fails for the empty key: a configuration may name a client \<^verbatim>\<open>""\<close>, the
  model is normalized and has that key, and \<open>setActiveConnection\<close> refuses it.
\<close>

theorem set_active_empty_key_counterexample:
  "loadConfig demo_libs (demo_world None doc_eb_text) demo_path = Inr (''json'', model_eb) \<and>
   normalized_model model_eb \<and> [] \<in> fst ` set (clients model_eb) \<and>
   setActiveConnection demo_libs (demo_world None doc_eb_text) (Some (JStr [])) =
     (Inl (Error ''Key must be a non-empty string''), demo_world None doc_eb_text)"
  by (simp add: demo_load_eb normalized_model_eb setActiveConnection_def)
     (simp add: model_eb_def)

subsection \<open>C2\<close>

text \<open>
  Claim C2, amended. For every loaded model whose clients contain a non-empty key \<open>K\<close>, if
  \<^verbatim>\<open>DB_CLIENT\<close> is \<open>K\<close> then \<open>getActiveConnection\<close> returns the fields of the record of \<open>K\<close>,
  whatever the \<^verbatim>\<open>active\<close> flags are, with the property \<^verbatim>\<open>key\<close> equal to \<open>K\<close> unless the
  record has a field \<^verbatim>\<open>key\<close> of its own, which then stands.
\<close>

theorem override_precedence:
  assumes "findConfigFile L w = Inr (Some f)" and "loadConfig L w f = Inr (kind, m)"
    and "DB_CLIENT w = Some K" and "K \<noteq> []"
    and "map_of (clients m) K = Some (JObj ps)" and "distinct (map fst ps)"
  shows "\<exists>r. getActiveConnection L w = Inr (Some (JObj r)) \<and>
             (\<forall>f. f \<noteq> ''key'' \<longrightarrow> map_of r f = map_of ps f) \<and>
             map_of r ''key'' = (case map_of ps ''key'' of None \<Rightarrow> Some (JStr K) | Some x \<Rightarrow> Some x)"
proof -
  obtain c cs where K: "K = c # cs" using assms(4) by (cases K) auto
  have d: "distinct (map fst (own_entries ps))" by (simp add: distinct_own_entries assms(6))
  have r: "resolveActive (Some K) m = Inr (Some (JObj (with_key K (own_entries ps))))"
    using assms(5) by (simp add: resolveActive_def K clients_get_def)
  have "map_of (with_key K (own_entries ps)) f =
          (case map_of ps f of Some x \<Rightarrow> Some x
           | None \<Rightarrow> if f = ''key'' then Some (JStr K) else None)" for f
    by (simp add: map_of_with_key[OF d] map_of_own_entries[OF assms(6)])
  then show ?thesis
    using assms(1,2,3) r
    by (auto simp: getActiveConnection_loaded split: option.splits)
qed

text \<open>
  The theorem of C2 with \<^verbatim>\<open>DB_CLIENT=b\<close>, where \<^verbatim>\<open>a\<close> is the client marked active.
\<close>

theorem override_precedence_witness:
  "\<exists>r. getActiveConnection demo_libs (demo_world (Some ''b'') doc_ab_text) = Inr (Some (JObj r)) \<and>
       map_of r ''connectionString'' = Some (JStr ''pg://b'') \<and>
       map_of r ''active'' = None \<and>
       map_of r ''key'' = Some (JStr ''b'')"
proof -
  have e: "DB_CLIENT (demo_world (Some ''b'') doc_ab_text) = Some ''b''"
    by (simp add: demo_world_def)
  have b: "map_of (clients model_ab) ''b'' = Some (JObj [(''connectionString'', JStr ''pg://b'')])"
    by (simp add: model_ab_def)
  from override_precedence[OF demo_find demo_load_ab e _ b]
  obtain r where
      1: "getActiveConnection demo_libs (demo_world (Some ''b'') doc_ab_text) = Inr (Some (JObj r))"
      and 2: "\<forall>f. f \<noteq> ''key'' \<longrightarrow> map_of r f = map_of [(''connectionString'', JStr ''pg://b'')] f"
      and 3: "map_of r ''key'' = Some (JStr ''b'')"
    by auto
  from 2[rule_format, of "''connectionString''"] 2[rule_format, of "''active''"]
  have "map_of r ''connectionString'' = Some (JStr ''pg://b'')" and "map_of r ''active'' = None"
    by simp_all
  with 1 3 show ?thesis by blast
qed

text \<open>
  Claim C2 as stated fails for the empty key: the model contains the key \<^verbatim>\<open>""\<close>,
  \<^verbatim>\<open>DB_CLIENT\<close> is set to it, and the client marked active is returned instead.
\<close>

theorem override_empty_key_counterexample:
  "loadConfig demo_libs (demo_world (Some []) doc_eb_text) demo_path = Inr (''json'', model_eb) \<and>
   DB_CLIENT (demo_world (Some []) doc_eb_text) = Some [] \<and>
   map_of (clients model_eb) [] = Some (JObj [(''connectionString'', JStr ''pg://e'')]) \<and>
   getActiveConnection demo_libs (demo_world (Some []) doc_eb_text) =
     Inr (Some (JObj [(''key'', JStr ''b''), (''connectionString'', JStr ''pg://b''),
                      (''active'', JBool True)]))"
  by (simp add: demo_load_eb getActiveConnection_loaded[OF demo_find demo_load_eb])
     (simp add: demo_world_def model_eb_def resolve_eval)

subsection \<open>C3\<close>

text \<open>
  Claim C3, amended. For every loaded model, if \<^verbatim>\<open>DB_CLIENT\<close> is a non-empty key that
  \<^verbatim>\<open>model.clients\<close> neither owns nor inherits, \<open>getActiveConnection\<close> fails with an error that
  names the key and lists the keys of the model; the \<^verbatim>\<open>active\<close> flags play no part.
\<close>

theorem unknown_override_fails:
  assumes "findConfigFile L w = Inr (Some f)" and "loadConfig L w f = Inr (kind, m)"
    and "DB_CLIENT w = Some K" and "K \<noteq> []"
    and "clients_get m K = Missing"
  shows \<open>getActiveConnection L w =
           Inl (Error (''DB_CLIENT="'' @ K @
                       ''" does not match any client in config. Available clients: '' @
                       join '', '' (client_keys m)))\<close>
proof -
  obtain c cs where K: "K = c # cs" using assms(4) by (cases K) auto
  show ?thesis
    using assms(1,2,3,5) by (simp add: getActiveConnection_loaded resolveActive_def K)
qed

text \<open>The theorem of C3 with \<^verbatim>\<open>DB_CLIENT=zzz\<close>.\<close>

theorem unknown_override_fails_witness:
  \<open>getActiveConnection demo_libs (demo_world (Some ''zzz'') doc_ab_text) =
     Inl (Error ''DB_CLIENT="zzz" does not match any client in config. Available clients: a, b'')\<close>
proof -
  have e: "DB_CLIENT (demo_world (Some ''zzz'') doc_ab_text) = Some ''zzz''"
    by (simp add: demo_world_def)
  have m: "clients_get model_ab ''zzz'' = Missing"
    by (simp add: clients_get_def model_ab_def object_prototype_names_def)
  have k: "client_keys model_ab = [''a'', ''b'']"
    by (simp add: model_ab_def resolve_eval)
  from unknown_override_fails[OF demo_find demo_load_ab e _ m]
  show ?thesis by (simp add: k)
qed

text \<open>
  Claim C3 as stated fails for the empty string: \<^verbatim>\<open>DB_CLIENT\<close> is set to \<^verbatim>\<open>""\<close>, no client has
  that key, and the call does not fail but returns the client marked active.
\<close>

theorem unknown_override_empty_counterexample:
  "loadConfig demo_libs (demo_world (Some []) doc_ab_text) demo_path = Inr (''json'', model_ab) \<and>
   DB_CLIENT (demo_world (Some []) doc_ab_text) = Some [] \<and>
   [] \<notin> fst ` set (clients model_ab) \<and>
   getActiveConnection demo_libs (demo_world (Some []) doc_ab_text) =
     Inr (Some (JObj [(''key'', JStr ''a''), (''connectionString'', JStr ''pg://a''),
                      (''active'', JBool True)]))"
  by (simp add: demo_load_ab getActiveConnection_loaded[OF demo_find demo_load_ab])
     (simp add: demo_world_def model_ab_def resolve_eval)

subsection \<open>C4\<close>

text \<open>
  Claim C4. For every loaded model, with \<^verbatim>\<open>DB_CLIENT\<close> not set, \<open>getActiveConnection\<close>
  returns null when no entry of \<^verbatim>\<open>model.clients\<close> has a truthy \<^verbatim>\<open>active\<close>, and otherwise the
  first entry with a truthy \<^verbatim>\<open>active\<close> in the order of \<^verbatim>\<open>Object.entries(model.clients)\<close>,
  however many there are.
\<close>

theorem persisted_flag_scan:
  assumes "findConfigFile L w = Inr (Some f)" and "loadConfig L w f = Inr (kind, m)"
    and "DB_CLIENT w = None"
  shows "getActiveConnection L w =
           (case List.find (\<lambda>p. truthy_opt (own_prop (snd p) ''active'')) (own_entries (clients m)) of
              None \<Rightarrow> Inr None
            | Some p \<Rightarrow> Inr (Some (JObj (with_key (fst p) (entries (snd p))))))"
  using assms by (simp add: getActiveConnection_loaded resolveActive_scan)

text \<open>The theorem of C4 at two configurations.\<close>

theorem persisted_flag_scan_witness:
  "getActiveConnection demo_libs (demo_world None doc_ab_text) =
     Inr (Some (JObj [(''key'', JStr ''a''), (''connectionString'', JStr ''pg://a''),
                      (''active'', JBool True)])) \<and>
   getActiveConnection demo_libs (demo_world None doc_key_text) =
     Inr (Some (JObj [(''key'', JStr ''shadow''), (''connectionString'', JStr ''pg://a''),
                      (''active'', JBool True)]))"
proof -
  have e: "DB_CLIENT (demo_world None c) = None" for c
    by (simp add: demo_world_def)
  from persisted_flag_scan[OF demo_find demo_load_ab e]
       persisted_flag_scan[OF demo_find demo_load_key e]
  show ?thesis
    by (simp add: model_ab_def model_key_def resolve_eval)
qed

subsection \<open>C5\<close>

text \<open>
  Claim C5, amended. For every normalized model and every format among \<^verbatim>\<open>json\<close>, \<^verbatim>\<open>yaml\<close>, \<^verbatim>\<open>ini\<close>,
  when the codec of the format gives back the value it encoded, serializing the model
  and then decoding and normalizing the result yields a model with the same client keys
  and, for every client, the same connection string and the same \<^verbatim>\<open>active\<close>.
\<close>

theorem round_trip:
  assumes nm: "normalized_model m"
    and kind: "kind = ''json'' \<or> kind = ''yaml'' \<or> kind = ''ini''"
    and codec: "codec_roundtrip L kind (serialized_value m kind)"
  shows "\<exists>txt m'. serializeModel L m kind = Inr txt \<and>
           (case decode L kind txt of Inl e \<Rightarrow> Inl e | Inr raw \<Rightarrow> parseRawToModel raw kind) = Inr m' \<and>
           client_keys m' = client_keys m \<and>
           (\<forall>k v. map_of (clients m) k = Some v \<longrightarrow>
              (\<exists>v'. map_of (clients m') k = Some v' \<and>
                 own_prop v' ''connectionString'' = own_prop v ''connectionString'' \<and>
                 own_prop v' ''active'' = own_prop v ''active''))"
proof -
  let ?m' = "\<lparr>clients = map renormalized (own_entries (clients m)), clients_proto = None\<rparr>"
  have 1: "serializeModel L m kind = Inr (encode L kind (serialized_value m kind))"
    by (rule serializeModel_encode[OF kind])
  have 2: "(case decode L kind (encode L kind (serialized_value m kind)) of
              Inl e \<Rightarrow> Inl e | Inr raw \<Rightarrow> parseRawToModel raw kind) = Inr ?m'"
    by (simp add: decode_encode[OF codec] parseRawToModel_serialized[OF nm kind])
  have 3: "client_keys ?m' = client_keys m"
    by (simp add: client_keys_renormalized) (simp add: client_keys_def)
  have 4: "\<exists>v'. map_of (clients ?m') k = Some v' \<and>
                 own_prop v' ''connectionString'' = own_prop v ''connectionString'' \<and>
                 own_prop v' ''active'' = own_prop v ''active''"
    if "map_of (clients m) k = Some v" for k v
    using that own_prop_renormalized[OF normalized_model_lookup[OF nm that]]
    by (simp add: reread_fields[OF nm])
  from 1 2 3 4 show ?thesis by blast
qed

text \<open>The theorem of C5 at the configuration with clients \<^verbatim>\<open>a\<close> and \<^verbatim>\<open>b\<close>, as JSON.\<close>

theorem round_trip_witness:
  "normalized_model model_ab \<and>
   (\<exists>txt m'. serializeModel demo_libs model_ab ''json'' = Inr txt \<and>
      (case decode demo_libs ''json'' txt of
         Inl e \<Rightarrow> Inl e | Inr raw \<Rightarrow> parseRawToModel raw ''json'') = Inr m' \<and>
      client_keys m' = client_keys model_ab \<and>
      (\<exists>v'. map_of (clients m') ''a'' = Some v' \<and>
         own_prop v' ''connectionString'' = Some (JStr ''pg://a'') \<and>
         own_prop v' ''active'' = Some (JBool True)))"
proof -
  have a: "map_of (clients model_ab) ''a'' =
             Some (JObj [(''connectionString'', JStr ''pg://a''), (''active'', JBool True)])"
    by (simp add: model_ab_def)
  from round_trip[OF normalized_model_ab _ demo_codec_ab, simplified]
  obtain t m' where 1: "serializeModel demo_libs model_ab ''json'' = Inr t"
    and 2: "(case decode demo_libs ''json'' t of
         Inl e \<Rightarrow> Inl e | Inr raw \<Rightarrow> parseRawToModel raw ''json'') = Inr m'"
    and 3: "client_keys m' = client_keys model_ab"
    and 4: "\<forall>k v. map_of (clients model_ab) k = Some v \<longrightarrow>
              (\<exists>v'. map_of (clients m') k = Some v' \<and>
                 own_prop v' ''connectionString'' = own_prop v ''connectionString'' \<and>
                 own_prop v' ''active'' = own_prop v ''active'')"
    by blast
  from 4 a have "\<exists>v'. map_of (clients m') ''a'' = Some v' \<and>
         own_prop v' ''connectionString'' = Some (JStr ''pg://a'') \<and>
         own_prop v' ''active'' = Some (JBool True)"
    by fastforce
  with 1 2 3 normalized_model_ab show ?thesis by blast
qed

text \<open>
  Claim C5 as stated fails for the format \<^verbatim>\<open>ini\<close> and a connection string \<^verbatim>\<open>true\<close>: the model is
  normalized, the codec writes \<^verbatim>\<open>connectionString=true\<close> and reads a boolean back, and
  normalization rejects the result.
\<close>

theorem round_trip_ini_counterexample:
  \<open>normalized_model model_true \<and>
   serializeModel ini_libs model_true ''ini'' = Inr ini_true_text \<and>
   decode ini_libs ''ini'' ini_true_text =
     Inr (JObj [(''a'', JObj [(''connectionString'', JBool True)])]) \<and>
   (case decode ini_libs ''ini'' ini_true_text of
      Inl e \<Rightarrow> Inl e | Inr raw \<Rightarrow> parseRawToModel raw ''ini'') =
     Inl (Error ''Client "a": connectionString must be a non-empty string'')\<close>
  by (simp add: normalized_model_def normalized_record_def model_true_def serializeModel_def
                decode_def ini_libs_def js_eval)

subsection \<open>C6\<close>

text \<open>
  Claim C6, amended. For every client record of a client mapping that normalizes, a
  present \<^verbatim>\<open>active\<close> becomes a boolean: for a string, true exactly when it is \<^verbatim>\<open>true\<close>,
  \<^verbatim>\<open>1\<close> or \<^verbatim>\<open>yes\<close> in any case (every other string gives false); for a number, true exactly
  when it is not zero; for any other value, its truthiness. An absent \<^verbatim>\<open>active\<close> stays
  absent.
\<close>

theorem active_coercion:
  assumes norm: "normalize_clients (Some (JObj cs)) = Inr m"
    and dcs: "distinct (map fst cs)"
    and mem: "(k, JObj ps) \<in> set cs"
    and dps: "distinct (map fst ps)"
    and kp: "k \<noteq> ''__proto__''"
  shows "\<exists>r. map_of (clients m) k = Some (JObj r) \<and>
           (case map_of ps ''active'' of
              None \<Rightarrow> map_of r ''active'' = None
            | Some a \<Rightarrow>
                map_of r ''active'' =
                  Some (JBool (case a of
                     JStr s \<Rightarrow> toLowerCase s = ''true'' \<or> toLowerCase s = ''1'' \<or>
                               toLowerCase s = ''yes''
                   | JNum n \<Rightarrow> n \<noteq> Finite 0
                   | _ \<Rightarrow> truthy a)))"
proof -
  let ?r = "normalize_active (own_entries ps)"
  have ne: "normalize_entries (own_entries cs) \<lparr>clients = [], clients_proto = None\<rparr> = Inr m"
    using normalize_clients_Inr[OF norm] by simp
  have "map_of (clients m) k = Some (JObj (normalize_active (entries (JObj ps))))"
    by (rule normalize_entries_lookup[OF ne _ _ kp])
       (simp_all add: distinct_own_entries dcs set_own_entries mem)
  then have 1: "map_of (clients m) k = Some (JObj ?r)" by simp
  have 2: "(case map_of ps ''active'' of
              None \<Rightarrow> map_of ?r ''active'' = None
            | Some a \<Rightarrow>
                map_of ?r ''active'' =
                  Some (JBool (case a of
                     JStr s \<Rightarrow> toLowerCase s = ''true'' \<or> toLowerCase s = ''1'' \<or>
                               toLowerCase s = ''yes''
                   | JNum n \<Rightarrow> n \<noteq> Finite 0
                   | _ \<Rightarrow> truthy a)))"
    by (auto simp: normalize_active_def map_of_own_entries[OF dps] update_conv'
                   coerce_active_def Let_def
             split: option.splits jsval.splits)
  from 1 2 show ?thesis by blast
qed

text \<open>
  The theorem of C6 at a mapping whose client \<^verbatim>\<open>a\<close> has \<^verbatim>\<open>active: "FALSE"\<close>.
\<close>

theorem active_coercion_witness:
  "\<exists>r. map_of (clients model_ba) ''a'' = Some (JObj r) \<and>
       map_of r ''active'' = Some (JBool False)"
proof -
  let ?cs = "[(''a'', JObj [(''connectionString'', JStr ''pg://a''), (''active'', JStr ''FALSE'')]),
              (''b'', JObj [(''connectionString'', JStr ''pg://b''), (''active'', JStr ''Yes'')])]"
  have n: "normalize_clients (Some (JObj ?cs)) = Inr model_ba"
    by (simp add: js_eval model_ba_def toLowerCase_def lower_char_def char_of_eq_iff)
  from active_coercion[OF n, of "''a''"
         "[(''connectionString'', JStr ''pg://a''), (''active'', JStr ''FALSE'')]"]
  show ?thesis
    by (simp add: toLowerCase_def lower_char_def char_of_eq_iff)
qed

text \<open>
  Claim C6 as stated fails for the string \<^verbatim>\<open>no\<close>: it is none of the three strings, its
  truthiness is true, and normalization makes it false.
\<close>

theorem active_coercion_counterexample:
  "parseRawToModel
     (JObj [(''a'', JObj [(''connectionString'', JStr ''pg://a''), (''active'', JStr ''no'')])])
     ''json'' =
   Inr \<lparr>clients = [(''a'', JObj [(''connectionString'', JStr ''pg://a''),
                                 (''active'', JBool False)])],
        clients_proto = None\<rparr> \<and>
   claimed_coercion (JStr ''no'') = True"
  by (simp add: js_eval claimed_coercion_def toLowerCase_def lower_char_def)

subsection \<open>C7\<close>

text \<open>
  Claim C7, amended. For every JSON or YAML raw input that is an object, normalization
  uses the value of the \<^verbatim>\<open>clients\<close> key as the client mapping whenever that value is
  truthy, and otherwise treats the top level of the raw structure as the client mapping;
  a raw structure whose \<^verbatim>\<open>clients\<close> key holds a falsy value is rejected.
\<close>

theorem clients_key_selection:
  assumes kind: "kind = ''json'' \<or> kind = ''yaml''"
    and obj: "truthy raw" "typeof raw = ''object''"
  shows "(truthy_opt (own_prop raw ''clients'') \<longrightarrow>
            parseRawToModel raw kind = normalize_clients (own_prop raw ''clients'')) \<and>
         (\<not> truthy_opt (own_prop raw ''clients'') \<longrightarrow>
            parseRawToModel raw kind = normalize_clients (Some raw)) \<and>
         (own_prop raw ''clients'' \<noteq> None \<and> \<not> truthy_opt (own_prop raw ''clients'') \<longrightarrow>
            (\<exists>e. parseRawToModel raw kind = Inl e))"
proof (intro conjI impI)
  assume "truthy_opt (own_prop raw ''clients'')"
  then show "parseRawToModel raw kind = normalize_clients (own_prop raw ''clients'')"
    using kind obj by (auto simp: parseRawToModel_def)
next
  assume "\<not> truthy_opt (own_prop raw ''clients'')"
  then show "parseRawToModel raw kind = normalize_clients (Some raw)"
    using kind obj by (auto simp: parseRawToModel_def)
next
  assume a: "own_prop raw ''clients'' \<noteq> None \<and> \<not> truthy_opt (own_prop raw ''clients'')"
  then obtain c where c: "own_prop raw ''clients'' = Some c" and fc: "\<not> truthy c" by auto
  have p: "parseRawToModel raw kind = normalize_clients (Some raw)"
    using kind obj a by (auto simp: parseRawToModel_def)
  from c obtain ps where raw: "raw = JObj ps"
    by (cases raw) (simp_all add: own_prop_clients_array del: own_prop.simps(2))
  from c raw have "(''clients'', c) \<in> set (entries raw)"
    by (simp add: set_own_entries map_of_SomeD)
  show "\<exists>e. parseRawToModel raw kind = Inl e"
  proof (cases "normalize_clients (Some raw)")
    case (Inl e)
    with p show ?thesis by simp
  next
    case (Inr m)
    from normalize_entries_objects[OF normalize_clients_Inr[OF Inr]
           \<open>(''clients'', c) \<in> set (entries raw)\<close>] fc
    show ?thesis by simp
  qed
qed

text \<open>The theorem of C7 at a wrapped, a bare and a falsy-\<^verbatim>\<open>clients\<close> document.\<close>

theorem clients_key_selection_witness:
  "parseRawToModel (model_value model_ab) ''json'' =
     normalize_clients (Some (JObj (clients model_ab))) \<and>
   parseRawToModel (JObj (clients model_ab)) ''yaml'' =
     normalize_clients (Some (JObj (clients model_ab))) \<and>
   (\<exists>e. parseRawToModel (JObj [(''clients'', JBool False)]) ''json'' = Inl e)"
proof -
  have 1: "truthy_opt (own_prop (model_value model_ab) ''clients'')"
    and 2: "own_prop (model_value model_ab) ''clients'' = Some (JObj (clients model_ab))"
    by (simp_all add: model_value_def)
  have 3: "\<not> truthy_opt (own_prop (JObj (clients model_ab)) ''clients'')"
    by (simp add: model_ab_def)
  have 4: "own_prop (JObj [(''clients'', JBool False)]) ''clients'' \<noteq> None \<and>
           \<not> truthy_opt (own_prop (JObj [(''clients'', JBool False)]) ''clients'')"
    by simp
  from clients_key_selection[of "''json''" "model_value model_ab", THEN conjunct1] 1 2
  have A: "parseRawToModel (model_value model_ab) ''json'' =
     normalize_clients (Some (JObj (clients model_ab)))"
    by (simp add: model_value_def)
  from clients_key_selection[of "''yaml''" "JObj (clients model_ab)",
         THEN conjunct2, THEN conjunct1] 3
  have B: "parseRawToModel (JObj (clients model_ab)) ''yaml'' =
     normalize_clients (Some (JObj (clients model_ab)))"
    by simp
  from clients_key_selection[of "''json''" "JObj [(''clients'', JBool False)]",
         THEN conjunct2, THEN conjunct2] 4
  have C: "\<exists>e. parseRawToModel (JObj [(''clients'', JBool False)]) ''json'' = Inl e"
    by simp
  from A B C show ?thesis by blast
qed

text \<open>
  Claim C7 as stated fails for \<^verbatim>\<open>clients: null\<close>: the raw structure has a \<^verbatim>\<open>clients\<close> key,
  whose value as the client mapping is rejected as holding no client, and the code
  instead takes the top level as the mapping and rejects its entry \<^verbatim>\<open>clients\<close>.
\<close>

theorem clients_key_falsy_counterexample:
  \<open>own_prop (JObj [(''clients'', JNull), (''a'', JObj [(''connectionString'', JStr ''pg://a'')])])
     ''clients'' = Some JNull \<and>
   normalize_clients (Some JNull) =
     Inl (Error ''Config must contain at least one client definition'') \<and>
   parseRawToModel
     (JObj [(''clients'', JNull), (''a'', JObj [(''connectionString'', JStr ''pg://a'')])])
     ''json'' =
     Inl (Error ''Client "clients" must be an object with at least a connectionString field'')\<close>
  by (simp add: js_eval)

subsection \<open>C8\<close>

text \<open>
  Claim C8. Whenever \<open>setActiveConnection\<close> fails, with whatever error, the file system is
  left as it was. It fails so for a key that is not a non-empty string, when no config
  file is found, when loading the file fails, and when the key is not found in the
  model: each of these is decided before anything is written.
\<close>

theorem failure_leaves_file:
  \<open>(\<forall>e. fst (setActiveConnection L w key) = Inl e \<longrightarrow> snd (setActiveConnection L w key) = w) \<and>
   ((\<forall>k. key = Some (JStr k) \<longrightarrow> k = []) \<longrightarrow>
      setActiveConnection L w key = (Inl (Error ''Key must be a non-empty string''), w)) \<and>
   (\<forall>k. key = Some (JStr k) \<and> k \<noteq> [] \<longrightarrow>
      (\<forall>e. findConfigFile L w = Inl e \<longrightarrow> setActiveConnection L w key = (Inl e, w)) \<and>
      (findConfigFile L w = Inr None \<longrightarrow>
         setActiveConnection L w key = (Inl (Error ''Config file not found.''), w)) \<and>
      (\<forall>f e. findConfigFile L w = Inr (Some f) \<and> loadConfig L w f = Inl e \<longrightarrow>
         setActiveConnection L w key = (Inl e, w)) \<and>
      (\<forall>f kind m. findConfigFile L w = Inr (Some f) \<and> loadConfig L w f = Inr (kind, m) \<and>
           \<not> truthy_lookup (clients_get m k) \<longrightarrow>
         setActiveConnection L w key =
           (Inl (Error (''Key "'' @ k @ ''" not found in config. Available clients: '' @
                        join '', '' (client_keys m))), w)))\<close>
proof (intro conjI allI impI)
  fix e assume "fst (setActiveConnection L w key) = Inl e"
  then show "snd (setActiveConnection L w key) = w"
    by (auto simp: setActiveConnection_def
             split: option.splits jsval.splits list.splits sum.splits prod.splits if_splits)
next
  assume "\<forall>k. key = Some (JStr k) \<longrightarrow> k = []"
  then show "setActiveConnection L w key = (Inl (Error ''Key must be a non-empty string''), w)"
    by (auto simp: setActiveConnection_def split: option.splits jsval.splits list.splits)
next
  fix k e assume "key = Some (JStr k) \<and> k \<noteq> []" "findConfigFile L w = Inl e"
  then show "setActiveConnection L w key = (Inl e, w)"
    by (cases k) (auto simp: setActiveConnection_def)
next
  fix k assume "key = Some (JStr k) \<and> k \<noteq> []" "findConfigFile L w = Inr None"
  then show "setActiveConnection L w key = (Inl (Error ''Config file not found.''), w)"
    by (cases k) (auto simp: setActiveConnection_def)
next
  fix k f e
  assume "key = Some (JStr k) \<and> k \<noteq> []" "findConfigFile L w = Inr (Some f) \<and> loadConfig L w f = Inl e"
  then show "setActiveConnection L w key = (Inl e, w)"
    by (cases k) (auto simp: setActiveConnection_def)
next
  fix k f kind m
  assume "key = Some (JStr k) \<and> k \<noteq> []"
    "findConfigFile L w = Inr (Some f) \<and> loadConfig L w f = Inr (kind, m) \<and>
           \<not> truthy_lookup (clients_get m k)"
  then show \<open>setActiveConnection L w key =
           (Inl (Error (''Key "'' @ k @ ''" not found in config. Available clients: '' @
                        join '', '' (client_keys m))), w)\<close>
    by (cases k) (auto simp: setActiveConnection_def)
qed

text \<open>
  The theorem of C8 for a key the configuration does not have, and for no key at all.
\<close>

theorem failure_leaves_file_witness:
  \<open>setActiveConnection demo_libs (demo_world None doc_ab_text) (Some (JStr ''zzz'')) =
     (Inl (Error ''Key "zzz" not found in config. Available clients: a, b''),
      demo_world None doc_ab_text) \<and>
   snd (setActiveConnection demo_libs (demo_world None doc_ab_text) None) =
     demo_world None doc_ab_text\<close>
proof -
  note t = failure_leaves_file[of demo_libs "demo_world None doc_ab_text"]
  have m: "\<not> truthy_lookup (clients_get model_ab ''zzz'')"
    by (simp add: clients_get_def model_ab_def object_prototype_names_def)
  have k: "client_keys model_ab = [''a'', ''b'']"
    by (simp add: model_ab_def resolve_eval)
  from t[of "Some (JStr ''zzz'')", THEN conjunct2, THEN conjunct2, rule_format, of "''zzz''",
         THEN conjunct2, THEN conjunct2, THEN conjunct2, rule_format,
         of demo_path "''json''" model_ab] demo_find demo_load_ab m
  have A: \<open>setActiveConnection demo_libs (demo_world None doc_ab_text) (Some (JStr ''zzz'')) =
     (Inl (Error ''Key "zzz" not found in config. Available clients: a, b''),
      demo_world None doc_ab_text)\<close>
    by (simp add: k)
  have "fst (setActiveConnection demo_libs (demo_world None doc_ab_text) None) =
          Inl (Error ''Key must be a non-empty string'')"
    by (simp add: setActiveConnection_def)
  from t[of None, THEN conjunct1, rule_format, OF this]
  have B: "snd (setActiveConnection demo_libs (demo_world None doc_ab_text) None) =
     demo_world None doc_ab_text" .
  from A B show ?thesis by blast
qed

subsection \<open>C9\<close>

text \<open>
  Claim C9. If \<^verbatim>\<open>DB_CLIENT\<close> is the empty string, \<open>getActiveConnection\<close> returns what it
  returns with \<^verbatim>\<open>DB_CLIENT\<close> not set: the first client with a truthy \<^verbatim>\<open>active\<close> in model
  order, or null when there is none, and no error for an unknown client.
\<close>

theorem empty_override_ignored:
  assumes "findConfigFile L w = Inr (Some f)" and "loadConfig L w f = Inr (kind, m)"
    and "DB_CLIENT w = Some []"
  shows "getActiveConnection L w = getActiveConnection L (w\<lparr>DB_CLIENT := None\<rparr>) \<and>
         getActiveConnection L w =
           (case List.find (\<lambda>p. truthy_opt (own_prop (snd p) ''active'')) (own_entries (clients m)) of
              None \<Rightarrow> Inr None
            | Some p \<Rightarrow> Inr (Some (JObj (with_key (fst p) (entries (snd p))))))"
proof -
  have a: "getActiveConnection L (w\<lparr>DB_CLIENT := None\<rparr>) = resolveActive None m"
    using assms(1,2) by (simp add: getActiveConnection_def)
  have b: "getActiveConnection L w = resolveActive (Some []) m"
    using assms by (simp add: getActiveConnection_loaded)
  show ?thesis
    by (simp add: a b resolveActive_scan)
qed

text \<open>The theorem of C9 at the configuration with clients \<^verbatim>\<open>a\<close> (active) and \<^verbatim>\<open>b\<close>.\<close>

theorem empty_override_ignored_witness:
  "getActiveConnection demo_libs (demo_world (Some []) doc_ab_text) =
     getActiveConnection demo_libs ((demo_world (Some []) doc_ab_text)\<lparr>DB_CLIENT := None\<rparr>) \<and>
   getActiveConnection demo_libs (demo_world (Some []) doc_ab_text) =
     Inr (Some (JObj [(''key'', JStr ''a''), (''connectionString'', JStr ''pg://a''),
                      (''active'', JBool True)]))"
proof -
  have e: "DB_CLIENT (demo_world (Some []) doc_ab_text) = Some []"
    by (simp add: demo_world_def)
  note t = empty_override_ignored[OF demo_find demo_load_ab e]
  have v: "getActiveConnection demo_libs (demo_world (Some []) doc_ab_text) =
     Inr (Some (JObj [(''key'', JStr ''a''), (''connectionString'', JStr ''pg://a''),
                      (''active'', JBool True)]))"
    using t[THEN conjunct2] by (simp add: model_ab_def resolve_eval)
  show ?thesis
    by (intro conjI) (rule t[THEN conjunct1], rule v)
qed

subsection \<open>C10\<close>

text \<open>
  Claim C10. If a client record has a field named \<^verbatim>\<open>key\<close>, the objects that
  \<open>listConnections\<close>, \<open>getConnectionByKey\<close> and the persisted-flag branch of
  \<open>getActiveConnection\<close> return for that client have that field's value as their \<^verbatim>\<open>key\<close>
  property, not the client's key in the mapping.
\<close>

theorem key_field_shadows_map_key:
  assumes find: "findConfigFile L w = Inr (Some f)" and load: "loadConfig L w f = Inr (kind, m)"
  shows "(\<exists>rs. listConnections L w = Inr rs \<and> length rs = length (own_entries (clients m)) \<and>
            (\<forall>i k ps x. i < length rs \<and> own_entries (clients m) ! i = (k, JObj ps) \<and>
                 distinct (map fst ps) \<and> map_of ps ''key'' = Some x
               \<longrightarrow> own_prop (rs ! i) ''key'' = Some x)) \<and>
         (\<forall>k ps x. k \<noteq> [] \<and> map_of (clients m) k = Some (JObj ps) \<and>
                 distinct (map fst ps) \<and> map_of ps ''key'' = Some x
               \<longrightarrow> (\<exists>r. getConnectionByKey L w (Some (JStr k)) = Inr (Some r) \<and>
                        own_prop r ''key'' = Some x)) \<and>
         (\<forall>k ps x. DB_CLIENT w = None \<and>
                 List.find (\<lambda>p. truthy_opt (own_prop (snd p) ''active'')) (own_entries (clients m))
                   = Some (k, JObj ps) \<and>
                 distinct (map fst ps) \<and> map_of ps ''key'' = Some x
               \<longrightarrow> (\<exists>r. getActiveConnection L w = Inr (Some r) \<and> own_prop r ''key'' = Some x))"
proof (intro conjI)
  let ?rs = "map (\<lambda>p. JObj (with_key (fst p) (entries (snd p)))) (own_entries (clients m))"
  have "listConnections L w = Inr ?rs" by (rule listConnections_loaded[OF find load])
  moreover have "length ?rs = length (own_entries (clients m))" by simp
  moreover have "\<forall>i k ps x. i < length ?rs \<and> own_entries (clients m) ! i = (k, JObj ps) \<and>
                 distinct (map fst ps) \<and> map_of ps ''key'' = Some x
               \<longrightarrow> own_prop (?rs ! i) ''key'' = Some x"
    by (auto simp: with_key_shadowed simp del: own_prop.simps entries.simps)
  ultimately show "\<exists>rs. listConnections L w = Inr rs \<and> length rs = length (own_entries (clients m)) \<and>
            (\<forall>i k ps x. i < length rs \<and> own_entries (clients m) ! i = (k, JObj ps) \<and>
                 distinct (map fst ps) \<and> map_of ps ''key'' = Some x
               \<longrightarrow> own_prop (rs ! i) ''key'' = Some x)"
    by blast
next
  show "\<forall>k ps x. k \<noteq> [] \<and> map_of (clients m) k = Some (JObj ps) \<and>
                 distinct (map fst ps) \<and> map_of ps ''key'' = Some x
               \<longrightarrow> (\<exists>r. getConnectionByKey L w (Some (JStr k)) = Inr (Some r) \<and>
                        own_prop r ''key'' = Some x)"
    using getConnectionByKey_loaded[OF find load] with_key_shadowed
    by (metis truthy.simps(6))
next
  show "\<forall>k ps x. DB_CLIENT w = None \<and>
                 List.find (\<lambda>p. truthy_opt (own_prop (snd p) ''active'')) (own_entries (clients m))
                   = Some (k, JObj ps) \<and>
                 distinct (map fst ps) \<and> map_of ps ''key'' = Some x
               \<longrightarrow> (\<exists>r. getActiveConnection L w = Inr (Some r) \<and> own_prop r ''key'' = Some x)"
    using with_key_shadowed
    by (auto simp: getActiveConnection_loaded[OF find load] resolveActive_scan
             simp del: own_prop.simps entries.simps)
qed

text \<open>
  The theorem of C10 at a configuration whose client \<^verbatim>\<open>a\<close> has the field
  \<^verbatim>\<open>key: "shadow"\<close>.
\<close>

theorem key_field_shadows_map_key_witness:
  "(\<exists>rs. listConnections demo_libs (demo_world None doc_key_text) = Inr rs \<and>
         length rs = 1 \<and> own_prop (rs ! 0) ''key'' = Some (JStr ''shadow'')) \<and>
   (\<exists>r. getConnectionByKey demo_libs (demo_world None doc_key_text) (Some (JStr ''a'')) =
           Inr (Some r) \<and> own_prop r ''key'' = Some (JStr ''shadow'')) \<and>
   (\<exists>r. getActiveConnection demo_libs (demo_world None doc_key_text) = Inr (Some r) \<and>
        own_prop r ''key'' = Some (JStr ''shadow''))"
proof -
  let ?ps = "[(''connectionString'', JStr ''pg://a''), (''active'', JBool True),
              (''key'', JStr ''shadow'')]"
  have es: "own_entries (clients model_key) = [(''a'', JObj ?ps)]"
    by (simp add: model_key_def resolve_eval)
  have l: "map_of (clients model_key) ''a'' = Some (JObj ?ps)"
    by (simp add: model_key_def)
  have e: "DB_CLIENT (demo_world None doc_key_text) = None"
    by (simp add: demo_world_def)
  note t = key_field_shadows_map_key[OF demo_find demo_load_key, of None]
  from t[THEN conjunct1] obtain rs where
      r1: "listConnections demo_libs (demo_world None doc_key_text) = Inr rs"
      and r2: "length rs = length (own_entries (clients model_key))"
      and r3: "\<forall>i k ps x. i < length rs \<and> own_entries (clients model_key) ! i = (k, JObj ps) \<and>
                 distinct (map fst ps) \<and> map_of ps ''key'' = Some x
               \<longrightarrow> own_prop (rs ! i) ''key'' = Some x"
    by blast
  from r2 have len: "length rs = 1" by (simp add: es)
  from r3[rule_format, of 0 "''a''" ?ps "JStr ''shadow''"] len
  have "own_prop (rs ! 0) ''key'' = Some (JStr ''shadow'')" by (simp add: es)
  with r1 len have A: "\<exists>rs. listConnections demo_libs (demo_world None doc_key_text) = Inr rs \<and>
         length rs = 1 \<and> own_prop (rs ! 0) ''key'' = Some (JStr ''shadow'')" by blast
  from t[THEN conjunct2, THEN conjunct1, rule_format, of "''a''" ?ps "JStr ''shadow''"] l
  have B: "\<exists>r. getConnectionByKey demo_libs (demo_world None doc_key_text) (Some (JStr ''a'')) =
           Inr (Some r) \<and> own_prop r ''key'' = Some (JStr ''shadow'')" by simp
  from t[THEN conjunct2, THEN conjunct2, rule_format, of "''a''" ?ps "JStr ''shadow''"] e
  have C: "\<exists>r. getActiveConnection demo_libs (demo_world None doc_key_text) = Inr (Some r) \<and>
        own_prop r ''key'' = Some (JStr ''shadow'')" by (simp add: es)
  from A B C show ?thesis by blast
qed

end
